theory Spec2Isabelle
  imports Main
begin

section \<open>Python strings\<close>

text \<open>
  A Python \<^verbatim>\<open>str\<close> is a sequence of Unicode code points, so a string is a list of
  natural numbers.  \<open>ustr\<close> embeds an ASCII literal; the non-ASCII letters of the
  source are written by their code points.
\<close>

type_synonym ustring = "nat list"

definition ustr :: "string \<Rightarrow> ustring" where
  "ustr s = map of_char s"

text \<open>
  \<^verbatim>\<open>str.isspace\<close>, which is also what \<^verbatim>\<open>str.strip()\<close> removes and what \<^verbatim>\<open>\s\<close> matches
  in a \<^verbatim>\<open>str\<close> pattern.
\<close>

definition is_space :: "nat \<Rightarrow> bool" where
  "is_space c \<longleftrightarrow>
     (9 \<le> c \<and> c \<le> 13) \<or> (28 \<le> c \<and> c \<le> 32) \<or> c = 133 \<or> c = 160 \<or> c = 5760 \<or>
     (8192 \<le> c \<and> c \<le> 8202) \<or> c = 8232 \<or> c = 8233 \<or> c = 8239 \<or> c = 8287 \<or> c = 12288"

definition lstrip :: "ustring \<Rightarrow> ustring" where
  "lstrip s = dropWhile is_space s"

definition rstrip :: "ustring \<Rightarrow> ustring" where
  "rstrip s = rev (dropWhile is_space (rev s))"

definition strip :: "ustring \<Rightarrow> ustring" where
  "strip s = rstrip (lstrip s)"

text \<open>\<^verbatim>\<open>s.rstrip('.')\<close>\<close>

definition rstrip_dot :: "ustring \<Rightarrow> ustring" where
  "rstrip_dot s = rev (dropWhile (\<lambda>c. c = 46) (rev s))"

text \<open>\<^verbatim>\<open>s.split('\n')\<close>: never empty, \<^verbatim>\<open>''.split('\n') == ['']\<close>.\<close>

fun split_nl :: "ustring \<Rightarrow> ustring list" where
  "split_nl [] = [[]]"
| "split_nl (c # cs) =
     (if c = 10 then [] # split_nl cs
      else (case split_nl cs of l # ls \<Rightarrow> (c # l) # ls | [] \<Rightarrow> [[c]]))"

text \<open>\<^verbatim>\<open>sep.join(xs)\<close>\<close>

fun join :: "ustring \<Rightarrow> ustring list \<Rightarrow> ustring" where
  "join sep [] = []"
| "join sep [x] = x"
| "join sep (x # y # ys) = x @ sep @ join sep (y # ys)"

text \<open>\<^verbatim>\<open>xs[lo:hi]\<close> for indices that are not negative.\<close>

definition slice :: "'a list \<Rightarrow> nat \<Rightarrow> nat \<Rightarrow> 'a list" where
  "slice xs lo hi = drop lo (take hi xs)"

section \<open>Regular expressions\<close>

text \<open>
  The patterns of the source are kept as data and run by a backtracking matcher that
  returns every way to match, in the order in which Python's \<^verbatim>\<open>re\<close> tries them;
  the first one is the match Python reports.  Repetition occurs in the source's
  patterns only over single-character atoms.
\<close>

record flags =
  ignorecase :: bool
  multiline :: bool

datatype citem = One nat | Range nat nat

datatype atom = Ch nat | Cls "citem list" | Space | Dot

datatype rx =
    Atom atom
  | Lit ustring
  | Bol
  | Eol
  | Star atom
  | Plus atom
  | Opt atom
  | LazyStar atom
  | Grp nat rx
  | Cat "rx list"
  | Alt "rx list"

text \<open>
  The code points that a pattern character matches under \<^verbatim>\<open>re.IGNORECASE\<close>: those whose
  lower case is the lower case of the pattern character, or a letter \<^verbatim>\<open>re\<close> treats as
  its equal.  For a letter these are its two cases, and for a few letters some further
  code points (U+0130 and U+0131 for i, U+017F for s, U+212A for k, U+212B for a with
  ring, U+1E9E for sharp s, U+0178 for y with diaeresis, the Greek mu for the micro
  sign).  Given for pattern characters below 256, which is what the source uses.
\<close>

definition ci_lower :: "nat \<Rightarrow> nat" where
  "ci_lower p =
     (if (65 \<le> p \<and> p \<le> 90) \<or> (192 \<le> p \<and> p \<le> 222 \<and> p \<noteq> 215) then p + 32 else p)"

definition ci_variants :: "nat \<Rightarrow> nat list" where
  "ci_variants p =
     (let l = ci_lower p in
      if (97 \<le> l \<and> l \<le> 122) \<or> (224 \<le> l \<and> l \<le> 254 \<and> l \<noteq> 247) then
        [l, l - 32] @
        (if l = 105 then [304, 305] else if l = 115 then [383]
         else if l = 107 then [8490] else if l = 229 then [8491] else [])
      else if l = 181 then [181, 956, 924]
      else if l = 223 then [223, 7838]
      else if l = 255 then [255, 376]
      else [p])"

definition ch_ok :: "flags \<Rightarrow> nat \<Rightarrow> nat \<Rightarrow> bool" where
  "ch_ok f p c = (if ignorecase f then c \<in> set (ci_variants p) else c = p)"

fun citem_ok :: "flags \<Rightarrow> citem \<Rightarrow> nat \<Rightarrow> bool" where
  "citem_ok f (One p) c = ch_ok f p c"
| "citem_ok f (Range lo hi) c =
     (if ignorecase f then list_ex (\<lambda>p. ch_ok f p c) [lo..<Suc hi] else lo \<le> c \<and> c \<le> hi)"

fun atom_ok :: "flags \<Rightarrow> atom \<Rightarrow> nat \<Rightarrow> bool" where
  "atom_ok f (Ch p) c = ch_ok f p c"
| "atom_ok f (Cls items) c = list_ex (\<lambda>i. citem_ok f i c) items"
| "atom_ok f Space c = is_space c"
| "atom_ok f Dot c = (c \<noteq> 10)"

text \<open>
  A matcher state: the text before the current position, the text from it on, and the
  groups closed so far (latest first).
\<close>

type_synonym mstate = "ustring \<times> ustring \<times> (nat \<times> ustring) list"

fun lit_run :: "flags \<Rightarrow> ustring \<Rightarrow> mstate \<Rightarrow> mstate list" where
  "lit_run f [] st = [st]"
| "lit_run f (p # ps) (pre, [], g) = []"
| "lit_run f (p # ps) (pre, c # cs, g) =
     (if ch_ok f p c then lit_run f ps (pre @ [c], cs, g) else [])"

text \<open>Greedy repetition: the longest run first, then shorter ones.\<close>

fun star_run :: "(nat \<Rightarrow> bool) \<Rightarrow> mstate \<Rightarrow> mstate list" where
  "star_run P (pre, [], g) = [(pre, [], g)]"
| "star_run P (pre, c # cs, g) =
     (if P c then star_run P (pre @ [c], cs, g) else []) @ [(pre, c # cs, g)]"

text \<open>Lazy repetition: the shortest run first.\<close>

fun lazy_run :: "(nat \<Rightarrow> bool) \<Rightarrow> mstate \<Rightarrow> mstate list" where
  "lazy_run P (pre, [], g) = [(pre, [], g)]"
| "lazy_run P (pre, c # cs, g) =
     (pre, c # cs, g) # (if P c then lazy_run P (pre @ [c], cs, g) else [])"

fun atom_run :: "(nat \<Rightarrow> bool) \<Rightarrow> mstate \<Rightarrow> mstate list" where
  "atom_run P (pre, [], g) = []"
| "atom_run P (pre, c # cs, g) = (if P c then [(pre @ [c], cs, g)] else [])"

fun bol_ok :: "flags \<Rightarrow> mstate \<Rightarrow> bool" where
  "bol_ok f (pre, rest, g) \<longleftrightarrow> pre = [] \<or> (multiline f \<and> last pre = 10)"

fun eol_ok :: "flags \<Rightarrow> mstate \<Rightarrow> bool" where
  "eol_ok f (pre, rest, g) \<longleftrightarrow>
     rest = [] \<or> (if multiline f then hd rest = 10 else rest = [10])"

fun close_grp :: "nat \<Rightarrow> ustring \<Rightarrow> mstate \<Rightarrow> mstate" where
  "close_grp n pre0 (pre, rest, g) = (pre, rest, (n, drop (length pre0) pre) # g)"

fun rx_run :: "flags \<Rightarrow> rx \<Rightarrow> mstate \<Rightarrow> mstate list"
  and rx_cat :: "flags \<Rightarrow> rx list \<Rightarrow> mstate \<Rightarrow> mstate list"
  and rx_alt :: "flags \<Rightarrow> rx list \<Rightarrow> mstate \<Rightarrow> mstate list" where
  "rx_run f (Atom a) st = atom_run (atom_ok f a) st"
| "rx_run f (Lit s) st = lit_run f s st"
| "rx_run f Bol st = (if bol_ok f st then [st] else [])"
| "rx_run f Eol st = (if eol_ok f st then [st] else [])"
| "rx_run f (Star a) st = star_run (atom_ok f a) st"
| "rx_run f (Plus a) st = concat (map (star_run (atom_ok f a)) (atom_run (atom_ok f a) st))"
| "rx_run f (Opt a) st = atom_run (atom_ok f a) st @ [st]"
| "rx_run f (LazyStar a) st = lazy_run (atom_ok f a) st"
| "rx_run f (Grp n r) st = map (close_grp n (fst st)) (rx_run f r st)"
| "rx_run f (Cat rs) st = rx_cat f rs st"
| "rx_run f (Alt rs) st = rx_alt f rs st"
| "rx_cat f [] st = [st]"
| "rx_cat f (r # rs) st = concat (map (rx_cat f rs) (rx_run f r st))"
| "rx_alt f [] st = []"
| "rx_alt f (r # rs) st = rx_run f r st @ rx_alt f rs st"

text \<open>\<^verbatim>\<open>pattern.match(s)\<close>: the match at position 0, if any.\<close>

definition re_match :: "flags \<Rightarrow> rx \<Rightarrow> ustring \<Rightarrow> mstate option" where
  "re_match f r s = (case rx_run f r ([], s, []) of [] \<Rightarrow> None | m # _ \<Rightarrow> Some m)"

text \<open>\<^verbatim>\<open>match.group(n)\<close>, for a group that took part in the match.\<close>

fun group :: "nat \<Rightarrow> mstate \<Rightarrow> ustring" where
  "group n (pre, rest, g) = (case map_of g n of Some s \<Rightarrow> s | None \<Rightarrow> [])"


text \<open>\<^verbatim>\<open>re.search(pattern, s)\<close>: the first position from which the pattern matches.\<close>

fun search_from :: "flags \<Rightarrow> rx \<Rightarrow> ustring \<Rightarrow> ustring \<Rightarrow> mstate option" where
  "search_from f r pre [] = (case rx_run f r (pre, [], []) of [] \<Rightarrow> None | m # _ \<Rightarrow> Some m)"
| "search_from f r pre (c # cs) =
     (case rx_run f r (pre, c # cs, []) of
        [] \<Rightarrow> search_from f r (pre @ [c]) cs
      | m # _ \<Rightarrow> Some m)"

definition re_search :: "flags \<Rightarrow> rx \<Rightarrow> ustring \<Rightarrow> mstate option" where
  "re_search f r s = search_from f r [] s"

text \<open>
  \<^verbatim>\<open>re.sub(pattern, repl, s)\<close> for a pattern that cannot match the empty string, which
  holds of the three patterns the source substitutes: scanning from the left, a match
  is replaced by \<open>repl\<close> and the scan goes on behind it (\<open>skip\<close> counts the characters
  of the match still to be passed over); a character where no match starts is copied.
\<close>

fun sub_loop :: "flags \<Rightarrow> rx \<Rightarrow> ustring \<Rightarrow> ustring \<Rightarrow> ustring \<Rightarrow> nat \<Rightarrow> ustring" where
  "sub_loop f r repl pre [] skip = []"
| "sub_loop f r repl pre (c # cs) skip =
     (if skip > 0 then sub_loop f r repl (pre @ [c]) cs (skip - 1)
      else (case rx_run f r (pre, c # cs, []) of
              [] \<Rightarrow> c # sub_loop f r repl (pre @ [c]) cs 0
            | m # _ \<Rightarrow>
                (let k = length (fst m) - length pre in
                 if k = 0 then c # sub_loop f r repl (pre @ [c]) cs 0
                 else repl @ sub_loop f r repl (pre @ [c]) cs (k - 1))))"

definition re_sub :: "flags \<Rightarrow> rx \<Rightarrow> ustring \<Rightarrow> ustring \<Rightarrow> ustring" where
  "re_sub f r repl s = sub_loop f r repl [] s 0"

section \<open>The patterns of \<open>LegalTextParser\<close>\<close>

definition fl_none :: flags where
  "fl_none = \<lparr>ignorecase = False, multiline = False\<rparr>"

definition fl_i :: flags where
  "fl_i = \<lparr>ignorecase = True, multiline = False\<rparr>"

definition fl_m :: flags where
  "fl_m = \<lparr>ignorecase = False, multiline = True\<rparr>"

definition fl_mi :: flags where
  "fl_mi = \<lparr>ignorecase = True, multiline = True\<rparr>"

text \<open>\<^verbatim>\<open>[IVXLCDM]\<close>, \<^verbatim>\<open>[0-9]\<close>, \<^verbatim>\<open>[a-z]\<close> and the dashes \<^verbatim>\<open>[-\<close>U+2013 U+2014\<^verbatim>\<open>]\<close>.\<close>

definition cls_roman :: atom where
  "cls_roman = Cls [One 73, One 86, One 88, One 76, One 67, One 68, One 77]"

definition cls_digit :: atom where
  "cls_digit = Cls [Range 48 57]"

definition cls_az :: atom where
  "cls_az = Cls [Range 97 122]"

definition cls_dash :: atom where
  "cls_dash = Cls [One 45, One 8211, One 8212]"

text \<open>The words of the patterns; 193, 201, 205, 211 and 218 are the capital letters
  A, E, I, O and U with acute accent, 237 and 250 the small i and u with acute accent.\<close>

definition w_TITULO :: ustring where "w_TITULO = ustr ''T'' @ [205] @ ustr ''TULO''"
definition w_CAPITULO :: ustring where "w_CAPITULO = ustr ''CAP'' @ [205] @ ustr ''TULO''"
definition w_UNICO :: ustring where "w_UNICO = [218] @ ustr ''NICO''"
definition w_Unico :: ustring where "w_Unico = [218] @ ustr ''nico''"
definition w_Articulo :: ustring where "w_Articulo = ustr ''Art'' @ [237] @ ustr ''culo''"
definition w_ARTICULO :: ustring where "w_ARTICULO = ustr ''ART'' @ [205] @ ustr ''CULO''"
definition w_CODIGO :: ustring where "w_CODIGO = ustr ''C'' @ [211] @ ustr ''DIGO''"
definition w_CONSTITUCION :: ustring where "w_CONSTITUCION = ustr ''CONSTITUCI'' @ [211] @ ustr ''N''"
definition w_SEPTIMO :: ustring where "w_SEPTIMO = ustr ''S'' @ [201] @ ustr ''PTIMO''"
definition w_DECIMO :: ustring where "w_DECIMO = ustr ''D'' @ [201] @ ustr ''CIMO''"

text \<open>\<^verbatim>\<open>'capitulo'\<close>: \<^verbatim>\<open>^(T.TULO|CAP.TULO)\s+([IVXLCDM]+|[0-9]+|PRIMERO|SEGUNDO|TERCERO|.NICO).*?$\<close>,
  \<^verbatim>\<open>re.MULTILINE | re.IGNORECASE\<close>.\<close>

definition pat_capitulo :: rx where
  "pat_capitulo =
     Cat [Bol, Grp 1 (Alt [Lit w_TITULO, Lit w_CAPITULO]), Plus Space,
          Grp 2 (Alt [Plus cls_roman, Plus cls_digit, Lit (ustr ''PRIMERO''),
                      Lit (ustr ''SEGUNDO''), Lit (ustr ''TERCERO''), Lit w_UNICO]),
          LazyStar Dot, Eol]"

text \<open>\<^verbatim>\<open>'articulo'\<close>: \<^verbatim>\<open>^Art.culo\s+([0-9]+\<close>U+00BA\<^verbatim>\<open>?|.NICO|.nico)\.?\s*[-\<close>U+2013 U+2014\<^verbatim>\<open>]?\s*(.*)\<close>,
  \<^verbatim>\<open>re.MULTILINE\<close>.\<close>

definition pat_articulo :: rx where
  "pat_articulo =
     Cat [Bol, Lit w_Articulo, Plus Space,
          Grp 1 (Alt [Cat [Plus cls_digit, Opt (Ch 186)], Lit w_UNICO, Lit w_Unico]),
          Opt (Ch 46), Star Space, Opt cls_dash, Star Space, Grp 2 (Star Dot)]"

text \<open>\<^verbatim>\<open>'fraccion'\<close>: \<^verbatim>\<open>^([IVXLCDM]+|[a-z]\)|[0-9]+\))\.\s*[-\<close>U+2013 U+2014\<^verbatim>\<open>]?\s*(.*)\<close>,
  \<^verbatim>\<open>re.MULTILINE\<close>.\<close>

definition pat_fraccion :: rx where
  "pat_fraccion =
     Cat [Bol,
          Grp 1 (Alt [Plus cls_roman, Cat [Atom cls_az, Atom (Ch 41)],
                      Cat [Plus cls_digit, Atom (Ch 41)]]),
          Atom (Ch 46), Star Space, Opt cls_dash, Star Space, Grp 2 (Star Dot)]"

text \<open>\<^verbatim>\<open>'transitorios'\<close>: \<^verbatim>\<open>^(TRANSITORIOS|ART.CULOS?\s+TRANSITORIOS)\<close>,
  \<^verbatim>\<open>re.MULTILINE | re.IGNORECASE\<close>.\<close>

definition pat_transitorios :: rx where
  "pat_transitorios =
     Cat [Bol, Grp 1 (Alt [Lit (ustr ''TRANSITORIOS''),
                           Cat [Lit w_ARTICULO, Opt (Ch 83), Plus Space,
                                Lit (ustr ''TRANSITORIOS'')]])]"

text \<open>\<^verbatim>\<open>'transitorio_item'\<close>:
  \<^verbatim>\<open>^(PRIMERO|SEGUNDO|TERCERO|CUARTO|QUINTO|SEXTO|S.PTIMO|OCTAVO|NOVENO|D.CIMO|[0-9]+\<close>U+00BA\<^verbatim>\<open>?|[IVXLCDM]+)\.?\s*[-\<close>U+2013 U+2014\<^verbatim>\<open>]?\s*(.*)\<close>,
  \<^verbatim>\<open>re.MULTILINE | re.IGNORECASE\<close>.\<close>

definition pat_transitorio_item :: rx where
  "pat_transitorio_item =
     Cat [Bol,
          Grp 1 (Alt [Lit (ustr ''PRIMERO''), Lit (ustr ''SEGUNDO''), Lit (ustr ''TERCERO''),
                      Lit (ustr ''CUARTO''), Lit (ustr ''QUINTO''), Lit (ustr ''SEXTO''),
                      Lit w_SEPTIMO, Lit (ustr ''OCTAVO''), Lit (ustr ''NOVENO''),
                      Lit w_DECIMO, Cat [Plus cls_digit, Opt (Ch 186)], Plus cls_roman]),
          Opt (Ch 46), Star Space, Opt cls_dash, Star Space, Grp 2 (Star Dot)]"

text \<open>The patterns written in place in \<open>extraer_decreto\<close>, \<open>extraer_titulo\<close> and
  \<open>limpiar_texto\<close>.\<close>

definition pat_fin_decreto :: rx where
  "pat_fin_decreto =
     Cat [Bol, Grp 1 (Alt [Lit (ustr ''LEY''), Lit w_CODIGO, Lit w_CONSTITUCION,
                           Lit (ustr ''REGLAMENTO''), Lit w_TITULO, Lit w_CAPITULO])]"

definition pat_linea_titulo :: rx where
  "pat_linea_titulo =
     Cat [Bol, Grp 1 (Alt [Lit (ustr ''LEY''), Lit w_CODIGO, Lit w_CONSTITUCION,
                           Lit (ustr ''REGLAMENTO'')])]"

definition pat_prefijo_titulo :: rx where
  "pat_prefijo_titulo =
     Cat [Bol, Grp 1 (Alt [Cat [Lit (ustr ''LEY''), Plus Space, Lit (ustr ''DE''), Plus Space,
                                Lit (ustr ''INGRESOS''), Plus Space, Lit (ustr ''DEL''),
                                Plus Space],
                           Cat [Lit (ustr ''LEY''), Plus Space]])]"

definition pat_espacios :: rx where
  "pat_espacios = Plus Space"

definition pat_guiones :: rx where
  "pat_guiones = Atom (Cls [One 8211, One 8212])"

section \<open>The data model\<close>

record Fraccion =
  f_fraccion :: ustring
  f_texto :: ustring

record Articulo =
  a_articulo :: int
  a_texto :: ustring
  a_fracciones :: "Fraccion list"

record Capitulo =
  c_capitulo :: ustring
  c_articulos :: "Articulo list"

record Transitorio =
  t_articulo :: ustring
  t_texto :: ustring

text \<open>The constructors, with \<^verbatim>\<open>str_strip_whitespace = True\<close> of each model's \<open>Config\<close>.\<close>

definition mk_Fraccion :: "ustring \<Rightarrow> ustring \<Rightarrow> Fraccion" where
  "mk_Fraccion fr tx = \<lparr>f_fraccion = strip fr, f_texto = strip tx\<rparr>"

definition mk_Articulo :: "int \<Rightarrow> ustring \<Rightarrow> Fraccion list \<Rightarrow> Articulo" where
  "mk_Articulo n tx frs = \<lparr>a_articulo = n, a_texto = strip tx, a_fracciones = frs\<rparr>"

definition mk_Capitulo :: "ustring \<Rightarrow> Articulo list \<Rightarrow> Capitulo" where
  "mk_Capitulo c arts = \<lparr>c_capitulo = strip c, c_articulos = arts\<rparr>"

definition mk_Transitorio :: "ustring \<Rightarrow> ustring \<Rightarrow> Transitorio" where
  "mk_Transitorio a tx = \<lparr>t_articulo = strip a, t_texto = strip tx\<rparr>"


section \<open>\<open>LegalTextParser\<close>\<close>

subsection \<open>\<open>limpiar_texto\<close>\<close>

definition limpiar_texto :: "ustring \<Rightarrow> ustring" where
  "limpiar_texto texto =
     re_sub fl_none pat_guiones (ustr ''-'') (re_sub fl_none pat_espacios (ustr '' '') (strip texto))"

subsection \<open>\<open>extraer_decreto\<close>\<close>

text \<open>The loop over the lines; it returns \<open>decreto_lines\<close>.  Both \<^verbatim>\<open>break\<close>s end it.\<close>

fun decreto_loop :: "ustring list \<Rightarrow> ustring list \<Rightarrow> ustring list" where
  "decreto_loop [] decreto_lines = decreto_lines"
| "decreto_loop (l # ls) decreto_lines =
     (let linea = strip l in
      if linea = [] then decreto_loop ls decreto_lines
      else if re_search fl_i pat_fin_decreto linea \<noteq> None then decreto_lines
      else (let decreto_lines' = decreto_lines @ [linea] in
            if length decreto_lines' > 10 then decreto_lines'
            else decreto_loop ls decreto_lines'))"

definition extraer_decreto :: "ustring \<Rightarrow> ustring option" where
  "extraer_decreto contenido =
     (let decreto_lines = decreto_loop (split_nl contenido) [] in
      if decreto_lines \<noteq> [] then Some (join (ustr '' '') decreto_lines) else None)"

subsection \<open>\<open>extraer_titulo\<close>\<close>

text \<open>
  \<^verbatim>\<open>str.isupper\<close> reads the Unicode character database; the functions below take it
  as the parameter \<open>isupper\<close>.
\<close>

fun titulo_loop1 :: "ustring list \<Rightarrow> ustring option" where
  "titulo_loop1 [] = None"
| "titulo_loop1 (l # ls) =
     (let linea = strip l in
      if re_search fl_i pat_linea_titulo linea \<noteq> None
      then Some (limpiar_texto (re_sub fl_i pat_prefijo_titulo [] linea))
      else titulo_loop1 ls)"

fun titulo_loop2 :: "(ustring \<Rightarrow> bool) \<Rightarrow> ustring list \<Rightarrow> ustring option" where
  "titulo_loop2 isupper [] = None"
| "titulo_loop2 isupper (l # ls) =
     (let linea = strip l in
      if length linea > 10 \<and> isupper linea then Some (limpiar_texto linea)
      else titulo_loop2 isupper ls)"

text \<open>237 below is i-acute: the sentinel is \<^verbatim>\<open>"T\<close>i-acute\<^verbatim>\<open>tulo no identificado"\<close>.\<close>

definition titulo_no_identificado :: ustring where
  "titulo_no_identificado = ustr ''T'' @ [237] @ ustr ''tulo no identificado''"

definition extraer_titulo :: "(ustring \<Rightarrow> bool) \<Rightarrow> ustring \<Rightarrow> ustring" where
  "extraer_titulo isupper contenido =
     (let lineas = split_nl contenido in
      case titulo_loop1 lineas of
        Some t \<Rightarrow> t
      | None \<Rightarrow>
          (case titulo_loop2 isupper (take 10 lineas) of
             Some t \<Rightarrow> t
           | None \<Rightarrow> titulo_no_identificado))"

subsection \<open>\<open>parsear_fracciones\<close>\<close>

text \<open>Truth value of \<open>current_fraccion\<close> (\<^verbatim>\<open>None\<close> and the empty string are false).\<close>

fun truthy :: "ustring option \<Rightarrow> bool" where
  "truthy None = False"
| "truthy (Some s) = (s \<noteq> [])"

text \<open>\<^verbatim>\<open>[match.group(2)] if match.group(2) else []\<close>\<close>

definition texto_inicial :: "mstate \<Rightarrow> ustring list" where
  "texto_inicial m = (if group 2 m \<noteq> [] then [group 2 m] else [])"

fun guardar_fraccion :: "ustring option \<Rightarrow> ustring list \<Rightarrow> Fraccion list \<Rightarrow> Fraccion list" where
  "guardar_fraccion (Some cf) current_text fracciones =
     (if cf \<noteq> [] \<and> current_text \<noteq> []
      then fracciones @ [mk_Fraccion cf (limpiar_texto (join (ustr '' '') current_text))]
      else fracciones)"
| "guardar_fraccion None current_text fracciones = fracciones"

fun fracciones_loop ::
  "ustring list \<Rightarrow> ustring option \<Rightarrow> ustring list \<Rightarrow> Fraccion list \<Rightarrow> Fraccion list" where
  "fracciones_loop [] current_fraccion current_text fracciones =
     guardar_fraccion current_fraccion current_text fracciones"
| "fracciones_loop (l # ls) current_fraccion current_text fracciones =
     (let line = strip l in
      if line = [] then fracciones_loop ls current_fraccion current_text fracciones
      else (case re_match fl_m pat_fraccion line of
              Some m \<Rightarrow>
                fracciones_loop ls (Some (rstrip_dot (group 1 m))) (texto_inicial m)
                  (guardar_fraccion current_fraccion current_text fracciones)
            | None \<Rightarrow>
                if truthy current_fraccion
                then fracciones_loop ls current_fraccion (current_text @ [line]) fracciones
                else fracciones_loop ls current_fraccion current_text fracciones))"

definition parsear_fracciones :: "ustring \<Rightarrow> Fraccion list" where
  "parsear_fracciones texto = fracciones_loop (split_nl texto) None [] []"

subsection \<open>\<open>parsear_articulos\<close>\<close>

definition is_capitulo :: "ustring \<Rightarrow> bool" where
  "is_capitulo line \<longleftrightarrow> re_match fl_mi pat_capitulo line \<noteq> None"

text \<open>The first index of \<open>current_text\<close> whose line matches the \<open>fraccion\<close> pattern.\<close>

fun first_fraction_line :: "ustring list \<Rightarrow> nat \<Rightarrow> nat option" where
  "first_fraction_line [] i = None"
| "first_fraction_line (text_line # rest) i =
     (if re_match fl_m pat_fraccion (strip text_line) \<noteq> None then Some i
      else first_fraction_line rest (Suc i))"

definition armar_articulo :: "int \<Rightarrow> ustring list \<Rightarrow> Articulo" where
  "armar_articulo current_articulo current_text =
     (let texto_completo = join [10] current_text;
          fracciones = parsear_fracciones texto_completo;
          texto_articulo =
            (if fracciones \<noteq> [] then
               (case first_fraction_line current_text 0 of
                  Some i \<Rightarrow> join (ustr '' '') (take i current_text)
                | None \<Rightarrow> join (ustr '' '') current_text)
             else join (ustr '' '') current_text)
      in mk_Articulo current_articulo (limpiar_texto texto_articulo) fracciones)"

fun guardar_articulo :: "int option \<Rightarrow> ustring list \<Rightarrow> Articulo list \<Rightarrow> Articulo list" where
  "guardar_articulo (Some ca) current_text articulos =
     (if current_text \<noteq> [] then articulos @ [armar_articulo ca current_text] else articulos)"
| "guardar_articulo None current_text articulos = articulos"

text \<open>
  \<^verbatim>\<open>str.isdigit\<close> and \<^verbatim>\<open>int\<close> on the number token.  The token is group 1 of the
  \<open>articulo\<close> pattern without its ordinal marks, so its characters are ASCII digits or
  letters of the word for "only"; \<open>is_digit_cp\<close> is \<^verbatim>\<open>isdigit\<close> on the code points below
  256 (the digits and the superscripts 1, 2, 3).  \<^verbatim>\<open>int\<close> raises \<^verbatim>\<open>ValueError\<close> on a
  superscript, and on more than 4300 digits; the source's \<^verbatim>\<open>except\<close> turns both into 1.
\<close>

definition is_digit_cp :: "nat \<Rightarrow> bool" where
  "is_digit_cp c \<longleftrightarrow> (48 \<le> c \<and> c \<le> 57) \<or> c = 178 \<or> c = 179 \<or> c = 185"

definition isdigit :: "ustring \<Rightarrow> bool" where
  "isdigit s \<longleftrightarrow> s \<noteq> [] \<and> list_all is_digit_cp s"

definition py_int :: "ustring \<Rightarrow> int option" where
  "py_int s =
     (if s \<noteq> [] \<and> list_all (\<lambda>c. 48 \<le> c \<and> c \<le> 57) s \<and> length s \<le> 4300
      then Some (foldl (\<lambda>a c. 10 * a + int (c - 48)) 0 s)
      else None)"

definition numero_articulo :: "ustring \<Rightarrow> int" where
  "numero_articulo g1 =
     (let articulo_num_str = filter (\<lambda>c. c \<noteq> 186 \<and> c \<noteq> 176) g1 in
      if isdigit articulo_num_str
      then (case py_int articulo_num_str of Some n \<Rightarrow> n | None \<Rightarrow> 1)
      else 1)"

fun articulos_loop ::
  "ustring list \<Rightarrow> int option \<Rightarrow> ustring list \<Rightarrow> Articulo list \<Rightarrow> Articulo list" where
  "articulos_loop [] current_articulo current_text articulos =
     guardar_articulo current_articulo current_text articulos"
| "articulos_loop (l # ls) current_articulo current_text articulos =
     (let line = strip l in
      if line = [] then articulos_loop ls current_articulo current_text articulos
      else if is_capitulo line then guardar_articulo current_articulo current_text articulos
      else (case re_match fl_m pat_articulo line of
              Some m \<Rightarrow>
                articulos_loop ls (Some (numero_articulo (group 1 m))) (texto_inicial m)
                  (guardar_articulo current_articulo current_text articulos)
            | None \<Rightarrow>
                if current_articulo \<noteq> None then
                  (if is_capitulo line
                   then guardar_articulo current_articulo current_text articulos
                   else articulos_loop ls current_articulo (current_text @ [line]) articulos)
                else articulos_loop ls current_articulo current_text articulos))"

definition parsear_articulos :: "ustring \<Rightarrow> nat \<Rightarrow> nat \<Rightarrow> Articulo list" where
  "parsear_articulos contenido inicio fin =
     articulos_loop (slice (split_nl contenido) inicio fin) None [] []"

subsection \<open>\<open>parsear_capitulos\<close>\<close>

definition is_transitorios :: "ustring \<Rightarrow> bool" where
  "is_transitorios line \<longleftrightarrow> re_match fl_mi pat_transitorios line \<noteq> None"

text \<open>\<open>capitulo_positions\<close>: the pairs \<open>(i, line.strip())\<close> of the header lines.\<close>

fun capitulo_positions :: "nat \<Rightarrow> ustring list \<Rightarrow> (nat \<times> ustring) list" where
  "capitulo_positions i [] = []"
| "capitulo_positions i (line # ls) =
     (if is_capitulo (strip line) then (i, strip line) # capitulo_positions (Suc i) ls
      else capitulo_positions (Suc i) ls)"

text \<open>The first \<open>j\<close> from \<open>j0\<close> on whose line matches the \<open>transitorios\<close> pattern; the
  list is the lines from \<open>j0\<close> on.\<close>

fun buscar_transitorios :: "nat \<Rightarrow> ustring list \<Rightarrow> nat option" where
  "buscar_transitorios j [] = None"
| "buscar_transitorios j (line # ls) =
     (if is_transitorios (strip line) then Some j else buscar_transitorios (Suc j) ls)"

text \<open>The end of the \<open>i\<close>-th chapter, \<open>fin_pos\<close>.\<close>

definition fin_capitulo :: "ustring list \<Rightarrow> (nat \<times> ustring) list \<Rightarrow> nat \<Rightarrow> nat \<Rightarrow> nat" where
  "fin_capitulo lines positions i pos =
     (let fin_pos = length lines;
          fin_pos = (if i + 1 < length positions then fst (positions ! (i + 1)) else fin_pos);
          fin_pos = (if int i = int (length positions) - 1 then
                       (case buscar_transitorios pos (drop pos lines) of
                          Some j \<Rightarrow> j
                        | None \<Rightarrow> fin_pos)
                     else fin_pos)
      in fin_pos)"

fun capitulos_loop ::
  "ustring \<Rightarrow> ustring list \<Rightarrow> (nat \<times> ustring) list \<Rightarrow> nat \<Rightarrow> (nat \<times> ustring) list \<Rightarrow>
   Capitulo list \<Rightarrow> Capitulo list" where
  "capitulos_loop contenido lines positions i [] capitulos = capitulos"
| "capitulos_loop contenido lines positions i ((pos, titulo) # rest) capitulos =
     (let fin_pos = fin_capitulo lines positions i pos;
          articulos = parsear_articulos contenido (pos + 1) fin_pos
      in capitulos_loop contenido lines positions (Suc i) rest
           (if articulos \<noteq> [] then capitulos @ [mk_Capitulo titulo articulos] else capitulos))"

text \<open>205 and 218 below: the label is \<^verbatim>\<open>"CAP\<close>I-acute\<^verbatim>\<open>TULO \<close>U-acute\<^verbatim>\<open>NICO"\<close>.\<close>

definition capitulo_unico :: ustring where
  "capitulo_unico = w_CAPITULO @ ustr '' '' @ w_UNICO"

definition parsear_capitulos :: "ustring \<Rightarrow> Capitulo list" where
  "parsear_capitulos contenido =
     (let lines = split_nl contenido;
          positions = capitulo_positions 0 lines
      in if positions = [] then
           (let articulos = parsear_articulos contenido 0 (length lines)
            in if articulos \<noteq> [] then [mk_Capitulo capitulo_unico articulos] else [])
         else capitulos_loop contenido lines positions 0 positions [])"

subsection \<open>\<open>parsear_transitorios\<close>\<close>

fun guardar_transitorio ::
  "ustring option \<Rightarrow> ustring list \<Rightarrow> Transitorio list \<Rightarrow> Transitorio list" where
  "guardar_transitorio (Some ct) current_text transitorios =
     (if ct \<noteq> [] \<and> current_text \<noteq> []
      then transitorios @ [mk_Transitorio ct (limpiar_texto (join (ustr '' '') current_text))]
      else transitorios)"
| "guardar_transitorio None current_text transitorios = transitorios"

fun transitorios_loop ::
  "ustring list \<Rightarrow> ustring option \<Rightarrow> ustring list \<Rightarrow> Transitorio list \<Rightarrow> Transitorio list" where
  "transitorios_loop [] current_transitorio current_text transitorios =
     guardar_transitorio current_transitorio current_text transitorios"
| "transitorios_loop (l # ls) current_transitorio current_text transitorios =
     (let line = strip l in
      if line = [] then transitorios_loop ls current_transitorio current_text transitorios
      else (case re_match fl_mi pat_transitorio_item line of
              Some m \<Rightarrow>
                transitorios_loop ls (Some (rstrip_dot (group 1 m))) (texto_inicial m)
                  (guardar_transitorio current_transitorio current_text transitorios)
            | None \<Rightarrow>
                if truthy current_transitorio
                then transitorios_loop ls current_transitorio (current_text @ [line]) transitorios
                else transitorios_loop ls current_transitorio current_text transitorios))"

definition parsear_transitorios :: "ustring \<Rightarrow> Transitorio list" where
  "parsear_transitorios contenido =
     (let lines = split_nl contenido in
      case buscar_transitorios 0 lines of
        None \<Rightarrow> []
      | Some inicio_transitorios \<Rightarrow>
          transitorios_loop (drop (inicio_transitorios + 1) lines) None [] [])"


section \<open>Example documents\<close>

text \<open>\<^verbatim>\<open>"Art\<close>i-acute\<^verbatim>\<open>culo 5. Las obligaciones son:\nI. Pagar.\nII. Declarar."\<close>\<close>

definition doc_articulo_5 :: ustring where
  "doc_articulo_5 =
     w_Articulo @ ustr '' 5. Las obligaciones son:'' @ [10] @ ustr ''I. Pagar.'' @ [10] @
     ustr ''II. Declarar.''"

text \<open>\<^verbatim>\<open>"Art\<close>i-acute\<^verbatim>\<open>culo \<close>U-acute\<^verbatim>\<open>nico. Se deroga la presente ley."\<close>\<close>

definition doc_articulo_unico :: ustring where
  "doc_articulo_unico = w_Articulo @ ustr '' '' @ w_Unico @ ustr ''. Se deroga la presente ley.''"

text \<open>\<^verbatim>\<open>"Art\<close>i-acute\<^verbatim>\<open>culo 5\<close>U+00BA\<^verbatim>\<open>. Texto"\<close>\<close>

definition doc_articulo_5o :: ustring where
  "doc_articulo_5o = w_Articulo @ ustr '' 5'' @ [186] @ ustr ''. Texto''"

text \<open>Twelve lines, \<^verbatim>\<open>"a\nb\n...\nl"\<close>, none of them a header.\<close>

definition doc_doce_lineas :: ustring where
  "doc_doce_lineas =
     ustr ''a'' @ [10] @ ustr ''b'' @ [10] @ ustr ''c'' @ [10] @ ustr ''d'' @ [10] @
     ustr ''e'' @ [10] @ ustr ''f'' @ [10] @ ustr ''g'' @ [10] @ ustr ''h'' @ [10] @
     ustr ''i'' @ [10] @ ustr ''j'' @ [10] @ ustr ''k'' @ [10] @ ustr ''l''"

text \<open>The match of the \<open>articulo\<close> pattern on \<open>doc_articulo_unico\<close>.\<close>

definition m_unico :: mstate where
  "m_unico = (doc_articulo_unico, [], [(2, ustr ''Se deroga la presente ley.''), (1, w_Unico)])"

text \<open>Four lines: article 1 with text, the bare header of article 2, a blank line,
  article 3 with text.\<close>

definition linea_art_1 :: ustring where "linea_art_1 = w_Articulo @ ustr '' 1. x''"
definition linea_art_2 :: ustring where "linea_art_2 = w_Articulo @ ustr '' 2.''"
definition linea_art_3 :: ustring where "linea_art_3 = w_Articulo @ ustr '' 3. y''"

definition doc_sin_cuerpo :: ustring where
  "doc_sin_cuerpo =
     linea_art_1 @ [10] @ linea_art_2 @ [10] @ ustr ''  '' @ [10] @ linea_art_3"

text \<open>Two chapters, with a line \<open>TRANSITORIOS\<close> inside the first and behind the second.\<close>

definition doc_dos_capitulos :: ustring where
  "doc_dos_capitulos =
     w_CAPITULO @ ustr '' I'' @ [10] @ w_Articulo @ ustr '' 1. x'' @ [10] @
     ustr ''TRANSITORIOS'' @ [10] @ w_CAPITULO @ ustr '' II'' @ [10] @
     w_Articulo @ ustr '' 2. z'' @ [10] @ ustr ''TRANSITORIOS'' @ [10] @ ustr ''Primero. y''"

section \<open>The extent of a chapter, as the specification states it\<close>

text \<open>The indices of the lines that are chapter headers, in increasing order.\<close>

definition encabezados_capitulo :: "ustring list \<Rightarrow> nat list" where
  "encabezados_capitulo lines = filter (\<lambda>i. is_capitulo (strip (lines ! i))) [0..<length lines]"

text \<open>The first transitory header found scanning forward from line \<open>pos\<close>.\<close>

definition transitorios_desde :: "ustring list \<Rightarrow> nat \<Rightarrow> nat option" where
  "transitorios_desde lines pos =
     find (\<lambda>j. is_transitorios (strip (lines ! j))) [pos..<length lines]"

text \<open>
  The end of the extent of the \<open>i\<close>-th chapter: the start line of the next chapter
  header; for the last chapter only, the start of the transitory block found from the
  chapter's start line on, and the end of the document when there is none.
\<close>

definition fin_extension :: "ustring list \<Rightarrow> nat \<Rightarrow> nat" where
  "fin_extension lines i =
     (let hs = encabezados_capitulo lines in
      if Suc i < length hs then hs ! Suc i
      else (case transitorios_desde lines (hs ! i) of Some j \<Rightarrow> j | None \<Rightarrow> length lines))"

text \<open>The chapter whose header is line \<open>pos\<close> and whose extent ends at \<open>fin\<close>: kept
  when it has articles.\<close>

definition capitulo_de :: "ustring \<Rightarrow> nat \<Rightarrow> nat \<Rightarrow> Capitulo list" where
  "capitulo_de contenido pos fin =
     (let articulos = parsear_articulos contenido (pos + 1) fin in
      if articulos \<noteq> [] then [mk_Capitulo (strip (split_nl contenido ! pos)) articulos] else [])"

text \<open>What one round of \<open>capitulos_loop\<close> appends, for the \<open>k\<close>-th entry of \<open>positions\<close>.\<close>

definition paso_capitulo ::
  "ustring \<Rightarrow> ustring list \<Rightarrow> (nat \<times> ustring) list \<Rightarrow> nat \<Rightarrow> Capitulo list" where
  "paso_capitulo contenido lines positions k =
     (let articulos = parsear_articulos contenido (fst (positions ! k) + 1)
                        (fin_capitulo lines positions k (fst (positions ! k)))
      in if articulos \<noteq> [] then [mk_Capitulo (snd (positions ! k)) articulos] else [])"

section \<open>Notions for the proofs about the matcher\<close>

text \<open>A result \<open>m\<close> of running a pattern from the state \<open>st\<close> has moved the position
  forward in the same text.\<close>

definition avanza :: "mstate \<Rightarrow> mstate \<Rightarrow> bool" where
  "avanza st m \<longleftrightarrow> (\<exists>w. fst m = fst st @ w \<and> fst (snd st) = w @ fst (snd m))"

text \<open>\<^verbatim>\<open>str.isupper\<close> on code points below 256: no lower-case letter, and at least one
  upper-case letter.\<close>

definition is_upper_cp :: "nat \<Rightarrow> bool" where
  "is_upper_cp c \<longleftrightarrow> (65 \<le> c \<and> c \<le> 90) \<or> (192 \<le> c \<and> c \<le> 222 \<and> c \<noteq> 215)"

definition is_lower_cp :: "nat \<Rightarrow> bool" where
  "is_lower_cp c \<longleftrightarrow>
     (97 \<le> c \<and> c \<le> 122) \<or> (223 \<le> c \<and> c \<le> 255 \<and> c \<noteq> 247) \<or> c = 170 \<or> c = 181 \<or> c = 186"

definition isupper_latin1 :: "ustring \<Rightarrow> bool" where
  "isupper_latin1 s \<longleftrightarrow> \<not> list_ex is_lower_cp s \<and> list_ex is_upper_cp s"

section \<open>The parser with source lines\<close>

text \<open>
  The output of the parser does not carry line numbers.  To state where a unit comes
  from, the loops are run once more on the lines paired with their indices in
  \<open>contenido.split('\n')\<close>; every stored unit records the index of its header line and
  the indices of the lines whose text it accumulated.  The loops are those of the
  previous section, line by line.
\<close>

datatype FraccionT =
  FraccionT (ft_val: Fraccion) (ft_encabezado: nat) (ft_lineas: "nat list")

datatype ArticuloT =
  ArticuloT (at_val: Articulo) (at_encabezado: nat) (at_lineas: "nat list")
    (at_fracciones: "FraccionT list")

datatype CapituloT =
  CapituloT (ct_val: Capitulo) (ct_encabezado: "nat option") (ct_articulos: "ArticuloT list")

fun guardar_fraccion_t ::
  "(ustring \<times> nat) option \<Rightarrow> (nat \<times> ustring) list \<Rightarrow> FraccionT list \<Rightarrow> FraccionT list" where
  "guardar_fraccion_t (Some (cf, h)) current_text fracciones =
     (if cf \<noteq> [] \<and> current_text \<noteq> []
      then fracciones @
             [FraccionT (mk_Fraccion cf (limpiar_texto (join (ustr '' '') (map snd current_text))))
                h (map fst current_text)]
      else fracciones)"
| "guardar_fraccion_t None current_text fracciones = fracciones"

fun fracciones_loop_t ::
  "(nat \<times> ustring) list \<Rightarrow> (ustring \<times> nat) option \<Rightarrow> (nat \<times> ustring) list \<Rightarrow>
   FraccionT list \<Rightarrow> FraccionT list" where
  "fracciones_loop_t [] current_fraccion current_text fracciones =
     guardar_fraccion_t current_fraccion current_text fracciones"
| "fracciones_loop_t ((i, l) # ls) current_fraccion current_text fracciones =
     (let line = strip l in
      if line = [] then fracciones_loop_t ls current_fraccion current_text fracciones
      else (case re_match fl_m pat_fraccion line of
              Some m \<Rightarrow>
                fracciones_loop_t ls (Some (rstrip_dot (group 1 m), i))
                  (map (Pair i) (texto_inicial m))
                  (guardar_fraccion_t current_fraccion current_text fracciones)
            | None \<Rightarrow>
                if truthy (map_option fst current_fraccion)
                then fracciones_loop_t ls current_fraccion (current_text @ [(i, line)]) fracciones
                else fracciones_loop_t ls current_fraccion current_text fracciones))"

text \<open>The sub-items are traced on \<open>current_text\<close> itself, which is what
  \<open>texto_completo.split('\n')\<close> gives back (lemma \<open>split_nl_join\<close> below).\<close>

definition armar_articulo_t :: "int \<Rightarrow> nat \<Rightarrow> (nat \<times> ustring) list \<Rightarrow> ArticuloT" where
  "armar_articulo_t current_articulo h current_text =
     ArticuloT (armar_articulo current_articulo (map snd current_text)) h (map fst current_text)
       (fracciones_loop_t current_text None [] [])"

fun guardar_articulo_t ::
  "(int \<times> nat) option \<Rightarrow> (nat \<times> ustring) list \<Rightarrow> ArticuloT list \<Rightarrow> ArticuloT list" where
  "guardar_articulo_t (Some (ca, h)) current_text articulos =
     (if current_text \<noteq> [] then articulos @ [armar_articulo_t ca h current_text] else articulos)"
| "guardar_articulo_t None current_text articulos = articulos"

fun articulos_loop_t ::
  "(nat \<times> ustring) list \<Rightarrow> (int \<times> nat) option \<Rightarrow> (nat \<times> ustring) list \<Rightarrow>
   ArticuloT list \<Rightarrow> ArticuloT list" where
  "articulos_loop_t [] current_articulo current_text articulos =
     guardar_articulo_t current_articulo current_text articulos"
| "articulos_loop_t ((i, l) # ls) current_articulo current_text articulos =
     (let line = strip l in
      if line = [] then articulos_loop_t ls current_articulo current_text articulos
      else if is_capitulo line then guardar_articulo_t current_articulo current_text articulos
      else (case re_match fl_m pat_articulo line of
              Some m \<Rightarrow>
                articulos_loop_t ls (Some (numero_articulo (group 1 m), i))
                  (map (Pair i) (texto_inicial m))
                  (guardar_articulo_t current_articulo current_text articulos)
            | None \<Rightarrow>
                if current_articulo \<noteq> None then
                  (if is_capitulo line
                   then guardar_articulo_t current_articulo current_text articulos
                   else articulos_loop_t ls current_articulo (current_text @ [(i, line)]) articulos)
                else articulos_loop_t ls current_articulo current_text articulos))"

definition parsear_articulos_t :: "ustring \<Rightarrow> nat \<Rightarrow> nat \<Rightarrow> ArticuloT list" where
  "parsear_articulos_t contenido inicio fin =
     articulos_loop_t (slice (enumerate 0 (split_nl contenido)) inicio fin) None [] []"

fun capitulos_loop_t ::
  "ustring \<Rightarrow> ustring list \<Rightarrow> (nat \<times> ustring) list \<Rightarrow> nat \<Rightarrow> (nat \<times> ustring) list \<Rightarrow>
   CapituloT list \<Rightarrow> CapituloT list" where
  "capitulos_loop_t contenido lines positions i [] capitulos = capitulos"
| "capitulos_loop_t contenido lines positions i ((pos, titulo) # rest) capitulos =
     (let fin_pos = fin_capitulo lines positions i pos;
          articulos = parsear_articulos_t contenido (pos + 1) fin_pos
      in capitulos_loop_t contenido lines positions (Suc i) rest
           (if articulos \<noteq> []
            then capitulos @ [CapituloT (mk_Capitulo titulo (map at_val articulos)) (Some pos) articulos]
            else capitulos))"

definition parsear_capitulos_t :: "ustring \<Rightarrow> CapituloT list" where
  "parsear_capitulos_t contenido =
     (let lines = split_nl contenido;
          positions = capitulo_positions 0 lines
      in if positions = [] then
           (let articulos = parsear_articulos_t contenido 0 (length lines)
            in if articulos \<noteq> []
               then [CapituloT (mk_Capitulo capitulo_unico (map at_val articulos)) None articulos]
               else [])
         else capitulos_loop_t contenido lines positions 0 positions [])"

text \<open>The source lines of a unit, and "every line of \<open>A\<close> comes before every line of \<open>B\<close>".\<close>

definition lineas_fraccion :: "FraccionT \<Rightarrow> nat set" where
  "lineas_fraccion f = insert (ft_encabezado f) (set (ft_lineas f))"

definition lineas_articulo :: "ArticuloT \<Rightarrow> nat set" where
  "lineas_articulo a = insert (at_encabezado a) (set (at_lineas a))"

definition lineas_capitulo :: "CapituloT \<Rightarrow> nat set" where
  "lineas_capitulo c =
     set_option (ct_encabezado c) \<union> (\<Union>a\<in>set (ct_articulos c). lineas_articulo a)"

definition antes :: "nat set \<Rightarrow> nat set \<Rightarrow> bool" where
  "antes A B \<longleftrightarrow> (\<forall>i\<in>A. \<forall>j\<in>B. i < j)"

text \<open>A text without line feed.\<close>

definition sin_salto :: "ustring \<Rightarrow> bool" where
  "sin_salto s \<longleftrightarrow> 10 \<notin> set s"

text \<open>The order of two units of one level: every source line of the first comes before
  every source line of the second.\<close>

definition orden_f :: "FraccionT \<Rightarrow> FraccionT \<Rightarrow> bool" where
  "orden_f f g \<longleftrightarrow> antes (lineas_fraccion f) (lineas_fraccion g)"

definition orden_a :: "ArticuloT \<Rightarrow> ArticuloT \<Rightarrow> bool" where
  "orden_a a b \<longleftrightarrow> antes (lineas_articulo a) (lineas_articulo b)"

definition orden_c :: "CapituloT \<Rightarrow> CapituloT \<Rightarrow> bool" where
  "orden_c c d \<longleftrightarrow> antes (lineas_capitulo c) (lineas_capitulo d)"

text \<open>The invariant of \<open>fracciones_loop_t\<close> before a line of index at least \<open>k\<close>.\<close>

definition inv_f ::
  "nat \<Rightarrow> (ustring \<times> nat) option \<Rightarrow> (nat \<times> ustring) list \<Rightarrow> FraccionT list \<Rightarrow> bool" where
  "inv_f k cur ct out \<longleftrightarrow>
     sorted_wrt orden_f out \<and>
     (case cur of
        None \<Rightarrow> ct = [] \<and> (\<forall>f\<in>set out. \<forall>i\<in>lineas_fraccion f. i < k)
      | Some (cf, h) \<Rightarrow>
          (\<forall>f\<in>set out. \<forall>i\<in>lineas_fraccion f. i < h) \<and> h < k \<and>
          (\<forall>i\<in>fst ` set ct. h \<le> i \<and> i < k))"

text \<open>What holds of a stored article: its traced sub-items are its sub-items, they are
  in order, and their lines are lines of the article's text.\<close>

definition bueno :: "ArticuloT \<Rightarrow> bool" where
  "bueno a \<longleftrightarrow>
     map ft_val (at_fracciones a) = a_fracciones (at_val a) \<and>
     sorted_wrt orden_f (at_fracciones a) \<and>
     (\<forall>f\<in>set (at_fracciones a). lineas_fraccion f \<subseteq> set (at_lineas a))"

text \<open>The invariant of \<open>articulos_loop_t\<close> before a line of index at least \<open>k\<close>.\<close>

definition inv_a ::
  "nat \<Rightarrow> (int \<times> nat) option \<Rightarrow> (nat \<times> ustring) list \<Rightarrow> ArticuloT list \<Rightarrow> bool" where
  "inv_a k cur ct out \<longleftrightarrow>
     sorted_wrt orden_a out \<and> (\<forall>a\<in>set out. bueno a) \<and>
     sorted_wrt (<) (map fst ct) \<and> (\<forall>x\<in>set ct. sin_salto (snd x)) \<and>
     (case cur of
        None \<Rightarrow> ct = [] \<and> (\<forall>a\<in>set out. \<forall>i\<in>lineas_articulo a. i < k)
      | Some (ca, h) \<Rightarrow>
          (\<forall>a\<in>set out. \<forall>i\<in>lineas_articulo a. i < h) \<and> h < k \<and>
          (\<forall>i\<in>fst ` set ct. h \<le> i \<and> i < k))"

text \<open>What holds of a stored chapter: its traced articles are its articles, in order, each
  headed by a line that matches the \<open>articulo\<close> pattern; its header line, when it has
  one, is a chapter header line, gives the label, and comes before the articles' lines.\<close>

definition bueno_c :: "ustring list \<Rightarrow> CapituloT \<Rightarrow> bool" where
  "bueno_c lines c \<longleftrightarrow>
     map at_val (ct_articulos c) = c_articulos (ct_val c) \<and>
     sorted_wrt orden_a (ct_articulos c) \<and>
     (\<forall>a\<in>set (ct_articulos c).
        bueno a \<and> at_encabezado a < length lines \<and>
        re_match fl_m pat_articulo (strip (lines ! at_encabezado a)) \<noteq> None) \<and>
     (\<forall>p. ct_encabezado c = Some p \<longrightarrow>
        p < length lines \<and> is_capitulo (strip (lines ! p)) \<and>
        c_capitulo (ct_val c) = strip (lines ! p) \<and>
        (\<forall>a\<in>set (ct_articulos c). \<forall>i\<in>lineas_articulo a. p < i))"

text \<open>The whole text of a matcher state, and "every group is made of characters of
  the text".\<close>

definition texto :: "mstate \<Rightarrow> ustring" where
  "texto st = fst st @ fst (snd st)"

definition grupos_en_texto :: "mstate \<Rightarrow> bool" where
  "grupos_en_texto st \<longleftrightarrow> (\<forall>(n, t)\<in>set (snd (snd st)). set t \<subseteq> set (texto st))"

section \<open>A document with its trace\<close>

text \<open>Two chapters; the first has article 5 with two sub-items, the second article 6.\<close>

definition doc_traza :: ustring where
  "doc_traza =
     w_CAPITULO @ ustr '' I'' @ [10] @ w_Articulo @ ustr '' 5. Las obligaciones son:'' @ [10] @
     ustr ''I. Pagar.'' @ [10] @ ustr ''II. Declarar.'' @ [10] @
     w_CAPITULO @ ustr '' II'' @ [10] @ w_Articulo @ ustr '' 6. z''"

definition articulo_5_t :: ArticuloT where
  "articulo_5_t =
     ArticuloT
       \<lparr>a_articulo = 5, a_texto = ustr ''Las obligaciones son:'',
        a_fracciones = [\<lparr>f_fraccion = ustr ''I'', f_texto = ustr ''Pagar.''\<rparr>,
                        \<lparr>f_fraccion = ustr ''II'', f_texto = ustr ''Declarar.''\<rparr>]\<rparr>
       1 [1, 2, 3]
       [FraccionT \<lparr>f_fraccion = ustr ''I'', f_texto = ustr ''Pagar.''\<rparr> 2 [2],
        FraccionT \<lparr>f_fraccion = ustr ''II'', f_texto = ustr ''Declarar.''\<rparr> 3 [3]]"

definition capitulo_I_t :: CapituloT where
  "capitulo_I_t =
     CapituloT \<lparr>c_capitulo = w_CAPITULO @ ustr '' I'', c_articulos = [at_val articulo_5_t]\<rparr>
       (Some 0) [articulo_5_t]"

definition capitulo_II_t :: CapituloT where
  "capitulo_II_t =
     CapituloT
       \<lparr>c_capitulo = w_CAPITULO @ ustr '' II'',
        c_articulos = [\<lparr>a_articulo = 6, a_texto = ustr ''z'', a_fracciones = []\<rparr>]\<rparr>
       (Some 4)
       [ArticuloT \<lparr>a_articulo = 6, a_texto = ustr ''z'', a_fracciones = []\<rparr> 5 [5] []]"

section \<open>The title, as the specification states it\<close>















section \<open>The transitory pass with source lines\<close>

text \<open>\<open>parsear_transitorios\<close> on the lines paired with their indices, as the chapter
  pass above.\<close>

datatype TransitorioT =
  TransitorioT (tt_val: Transitorio) (tt_encabezado: nat) (tt_lineas: "nat list")

fun guardar_transitorio_t ::
  "(ustring \<times> nat) option \<Rightarrow> (nat \<times> ustring) list \<Rightarrow> TransitorioT list \<Rightarrow> TransitorioT list" where
  "guardar_transitorio_t (Some (ct, h)) current_text transitorios =
     (if ct \<noteq> [] \<and> current_text \<noteq> []
      then transitorios @
             [TransitorioT
                (mk_Transitorio ct (limpiar_texto (join (ustr '' '') (map snd current_text))))
                h (map fst current_text)]
      else transitorios)"
| "guardar_transitorio_t None current_text transitorios = transitorios"

fun transitorios_loop_t ::
  "(nat \<times> ustring) list \<Rightarrow> (ustring \<times> nat) option \<Rightarrow> (nat \<times> ustring) list \<Rightarrow>
   TransitorioT list \<Rightarrow> TransitorioT list" where
  "transitorios_loop_t [] current_transitorio current_text transitorios =
     guardar_transitorio_t current_transitorio current_text transitorios"
| "transitorios_loop_t ((i, l) # ls) current_transitorio current_text transitorios =
     (let line = strip l in
      if line = [] then transitorios_loop_t ls current_transitorio current_text transitorios
      else (case re_match fl_mi pat_transitorio_item line of
              Some m \<Rightarrow>
                transitorios_loop_t ls (Some (rstrip_dot (group 1 m), i))
                  (map (Pair i) (texto_inicial m))
                  (guardar_transitorio_t current_transitorio current_text transitorios)
            | None \<Rightarrow>
                if truthy (map_option fst current_transitorio)
                then transitorios_loop_t ls current_transitorio (current_text @ [(i, line)])
                       transitorios
                else transitorios_loop_t ls current_transitorio current_text transitorios))"

definition parsear_transitorios_t :: "ustring \<Rightarrow> TransitorioT list" where
  "parsear_transitorios_t contenido =
     (let lines = split_nl contenido in
      case buscar_transitorios 0 lines of
        None \<Rightarrow> []
      | Some inicio_transitorios \<Rightarrow>
          transitorios_loop_t (drop (inicio_transitorios + 1) (enumerate 0 lines)) None [] [])"

definition lineas_transitorio :: "TransitorioT \<Rightarrow> nat set" where
  "lineas_transitorio t = insert (tt_encabezado t) (set (tt_lineas t))"

text \<open>\<^verbatim>\<open>"Art\<close>i-acute\<^verbatim>\<open>culo 1. x\nTRANSITORIOS\nPrimero. y"\<close>, and what the two passes store
  for it.\<close>

definition doc_articulo_y_transitorio :: ustring where
  "doc_articulo_y_transitorio =
     linea_art_1 @ [10] @ ustr ''TRANSITORIOS'' @ [10] @ ustr ''Primero. y''"

definition articulo_1_t :: ArticuloT where
  "articulo_1_t =
     ArticuloT
       \<lparr>a_articulo = 1, a_texto = ustr ''x TRANSITORIOS Primero. y'', a_fracciones = []\<rparr>
       0 [0, 1, 2] []"

definition transitorio_primero_t :: TransitorioT where
  "transitorio_primero_t =
     TransitorioT \<lparr>t_articulo = ustr ''Primero'', t_texto = ustr ''y''\<rparr> 2 [2]"

section \<open>Evaluation\<close>

lemmas pat_defs =
  pat_capitulo_def pat_articulo_def pat_fraccion_def pat_transitorios_def
  pat_transitorio_item_def pat_fin_decreto_def pat_linea_titulo_def pat_prefijo_titulo_def
  pat_espacios_def pat_guiones_def cls_roman_def cls_digit_def cls_az_def cls_dash_def
  w_TITULO_def w_CAPITULO_def w_UNICO_def w_Unico_def w_Articulo_def w_ARTICULO_def
  w_CODIGO_def w_CONSTITUCION_def w_SEPTIMO_def w_DECIMO_def
  fl_none_def fl_i_def fl_m_def fl_mi_def

lemmas str_defs = ustr_def strip_def lstrip_def rstrip_def rstrip_dot_def is_space_def slice_def

lemmas rx_defs = re_match_def re_search_def re_sub_def ch_ok_def ci_variants_def ci_lower_def

lemmas parse_defs =
  parsear_articulos_def parsear_fracciones_def armar_articulo_def is_capitulo_def
  is_transitorios_def texto_inicial_def numero_articulo_def isdigit_def is_digit_cp_def
  py_int_def limpiar_texto_def mk_Fraccion_def mk_Articulo_def mk_Capitulo_def
  mk_Transitorio_def Let_def

section \<open>The article with two sub-items\<close>

text \<open>
  C1.  Parsing the three-line text made of the header of article 5 with the inline text
  "Las obligaciones son:" and the lines "I. Pagar." and "II. Declarar." yields exactly
  one article: its number is 5, its body is "Las obligaciones son:" (the sub-item lines
  are not part of it), and its sub-items are the two with the markers "I" and "II", in
  that order.
\<close>

theorem C1_articulo_5_con_fracciones:
  "parsear_articulos doc_articulo_5 0 3 =
     [\<lparr>a_articulo = 5, a_texto = ustr ''Las obligaciones son:'',
       a_fracciones = [\<lparr>f_fraccion = ustr ''I'', f_texto = ustr ''Pagar.''\<rparr>,
                       \<lparr>f_fraccion = ustr ''II'', f_texto = ustr ''Declarar.''\<rparr>]\<rparr>]"
  by (simp add: doc_articulo_5_def parse_defs pat_defs str_defs rx_defs)

lemma is_capitulo_vacio: "\<not> is_capitulo []"
  by (simp add: is_capitulo_def pat_defs rx_defs ustr_def)

lemma match_articulo_vacio: "re_match fl_m pat_articulo [] = None"
  by (simp add: pat_defs rx_defs ustr_def)

section \<open>The number of an article\<close>

text \<open>
  C6, as the claim states it, fails: on the header of article "5" followed by the
  ordinal mark U+00BA the captured token is not purely numeric, and the article number
  is 5, not 1, because the source removes the ordinal marks before it tests the token.
\<close>

theorem C6_counterexample:
  "map_option (group 1) (re_match fl_m pat_articulo doc_articulo_5o) = Some (ustr ''5'' @ [186])
   \<and> \<not> isdigit (ustr ''5'' @ [186])
   \<and> parsear_articulos doc_articulo_5o 0 1 =
       [\<lparr>a_articulo = 5, a_texto = ustr ''Texto'', a_fracciones = []\<rparr>]"
  by (simp add: doc_articulo_5o_def parse_defs pat_defs str_defs rx_defs)

text \<open>
  C6, amended.  Article parsing does not fail on the number token of an article header:
  if the captured token, once its ordinal marks (U+00BA, U+00B0) are removed, is not
  purely numeric, as for the two spellings of the word for "only", the article number
  is 1 and the loop goes on with the next line; in particular the one-line text
  \<open>doc_articulo_unico\<close> yields the
  single article number 1 with that body and no sub-items.
\<close>

theorem C6_numero_por_defecto:
  "(strip l \<noteq> [] \<and> \<not> is_capitulo (strip l) \<and> re_match fl_m pat_articulo (strip l) = Some m \<and>
    \<not> isdigit (filter (\<lambda>c. c \<noteq> 186 \<and> c \<noteq> 176) (group 1 m))
    \<longrightarrow> articulos_loop (l # ls) ca ct arts =
        articulos_loop ls (Some 1) (texto_inicial m) (guardar_articulo ca ct arts))
   \<and> parsear_articulos doc_articulo_unico 0 1 =
       [\<lparr>a_articulo = 1, a_texto = ustr ''Se deroga la presente ley.'', a_fracciones = []\<rparr>]"
proof (rule conjI)
  show "strip l \<noteq> [] \<and> \<not> is_capitulo (strip l) \<and> re_match fl_m pat_articulo (strip l) = Some m \<and>
    \<not> isdigit (filter (\<lambda>c. c \<noteq> 186 \<and> c \<noteq> 176) (group 1 m))
    \<longrightarrow> articulos_loop (l # ls) ca ct arts =
        articulos_loop ls (Some 1) (texto_inicial m) (guardar_articulo ca ct arts)"
    by (simp add: Let_def numero_articulo_def)
next
  show "parsear_articulos doc_articulo_unico 0 1 =
       [\<lparr>a_articulo = 1, a_texto = ustr ''Se deroga la presente ley.'', a_fracciones = []\<rparr>]"
    by (simp add: doc_articulo_unico_def parse_defs pat_defs str_defs rx_defs)
qed

theorem C6_numero_por_defecto_witness:
  "articulos_loop [doc_articulo_unico] (Some 7) [ustr ''x''] [] =
     articulos_loop [] (Some 1) [ustr ''Se deroga la presente ley.'']
       (guardar_articulo (Some 7) [ustr ''x''] [])"
proof -
  have 1: "strip doc_articulo_unico \<noteq> []"
    by (simp add: doc_articulo_unico_def pat_defs str_defs)
  have 2: "\<not> is_capitulo (strip doc_articulo_unico)"
    by (simp add: doc_articulo_unico_def parse_defs pat_defs str_defs rx_defs)
  have 3: "re_match fl_m pat_articulo (strip doc_articulo_unico) = Some m_unico"
    by (simp add: m_unico_def doc_articulo_unico_def parse_defs pat_defs str_defs rx_defs)
  have 4: "\<not> isdigit (filter (\<lambda>c. c \<noteq> 186 \<and> c \<noteq> 176) (group 1 m_unico))"
    by (simp add: m_unico_def parse_defs pat_defs str_defs)
  have 5: "texto_inicial m_unico = [ustr ''Se deroga la presente ley.'']"
    by (simp add: m_unico_def texto_inicial_def ustr_def)
  from C6_numero_por_defecto [of doc_articulo_unico m_unico "[]" "Some 7" "[ustr ''x'']" "[]"]
    1 2 3 4
  show ?thesis unfolding 5 by blast
qed

section \<open>The preamble\<close>

lemma decreto_loop_bound: "length acc \<le> 10 \<Longrightarrow> length (decreto_loop ls acc) \<le> 11"
  by (induction ls arbitrary: acc) (auto simp: Let_def)

text \<open>
  C7.  The claim bounds the preamble by 10 accumulated lines.  On a text of twelve
  one-letter lines \<open>extraer_decreto\<close> accumulates eleven: the length is tested against
  10 with \<open>>\<close> after the line has been appended.
\<close>

theorem C7_once_lineas:
  "decreto_loop (split_nl doc_doce_lineas) [] =
     [ustr ''a'', ustr ''b'', ustr ''c'', ustr ''d'', ustr ''e'', ustr ''f'', ustr ''g'',
      ustr ''h'', ustr ''i'', ustr ''j'', ustr ''k'']
   \<and> extraer_decreto doc_doce_lineas = Some (ustr ''a b c d e f g h i j k'')"
  by (simp add: doc_doce_lineas_def extraer_decreto_def parse_defs pat_defs str_defs rx_defs)

section \<open>The transitory articles\<close>

lemma buscar_transitorios_None:
  "(\<forall>l\<in>set ls. \<not> is_transitorios (strip l)) \<Longrightarrow> buscar_transitorios j ls = None"
  by (induction ls arbitrary: j) auto

lemma transitorios_loop_blancos:
  "(\<forall>l\<in>set ls. strip l = []) \<Longrightarrow>
   transitorios_loop ls cur ct out = guardar_transitorio cur ct out"
  by (induction ls arbitrary: cur ct out) (auto simp: Let_def)

text \<open>
  C9.  \<open>parsear_transitorios\<close> returns the empty list (the model has no failing branch
  here, as the source has no raising operation) in both cases: when no line of the
  document matches the \<open>transitorios\<close> pattern, and when the first line that matches
  it, at index \<open>i\<close>, is followed by no line with text (none at all, or blank ones only).
\<close>

theorem C9_transitorios_vacios:
  "((\<forall>l\<in>set (split_nl contenido). \<not> is_transitorios (strip l))
      \<longrightarrow> parsear_transitorios contenido = [])
   \<and> (buscar_transitorios 0 (split_nl contenido) = Some i \<and>
      (\<forall>l\<in>set (drop (i + 1) (split_nl contenido)). strip l = [])
      \<longrightarrow> parsear_transitorios contenido = [])"
  by (simp add: parsear_transitorios_def buscar_transitorios_None transitorios_loop_blancos)

theorem C9_transitorios_vacios_witness:
  "parsear_transitorios linea_art_1 = [] \<and>
   buscar_transitorios 0 (split_nl (ustr ''TRANSITORIOS'' @ [10] @ ustr ''  '')) = Some 0 \<and>
   parsear_transitorios (ustr ''TRANSITORIOS'' @ [10] @ ustr ''  '') = [] \<and>
   parsear_transitorios (ustr ''TRANSITORIOS'') = []"
proof -
  have 1: "\<forall>l\<in>set (split_nl linea_art_1). \<not> is_transitorios (strip l)"
    by (simp add: linea_art_1_def parse_defs pat_defs str_defs rx_defs)
  have 2: "buscar_transitorios 0 (split_nl (ustr ''TRANSITORIOS'' @ [10] @ ustr ''  '')) = Some 0"
    by (simp add: parse_defs pat_defs str_defs rx_defs)
  have 3: "\<forall>l\<in>set (drop (0 + 1) (split_nl (ustr ''TRANSITORIOS'' @ [10] @ ustr ''  ''))).
             strip l = []"
    by (simp add: str_defs)
  have 4: "buscar_transitorios 0 (split_nl (ustr ''TRANSITORIOS'')) = Some 0"
    by (simp add: parse_defs pat_defs str_defs rx_defs)
  have 5: "\<forall>l\<in>set (drop (0 + 1) (split_nl (ustr ''TRANSITORIOS''))). strip l = []"
    by (simp add: str_defs)
  from C9_transitorios_vacios [of linea_art_1] 1
    C9_transitorios_vacios [of "ustr ''TRANSITORIOS'' @ [10] @ ustr ''  ''" 0] 2 3
    C9_transitorios_vacios [of "ustr ''TRANSITORIOS''" 0] 4 5
  show ?thesis by blast
qed

section \<open>Article headers without text\<close>

lemma articulos_loop_blancos:
  "(\<forall>b\<in>set bs. strip b = []) \<Longrightarrow>
   articulos_loop (bs @ post) ca ct arts = articulos_loop post ca ct arts"
  by (induction bs) (auto simp: Let_def)

lemma guardar_articulo_vacio: "guardar_articulo ca [] arts = arts"
  by (cases ca) auto

lemma articulos_loop_cong_prefix:
  "(\<And>ca ct arts. articulos_loop xs ca ct arts = articulos_loop ys ca ct arts) \<Longrightarrow>
   articulos_loop (pre @ xs) ca ct arts = articulos_loop (pre @ ys) ca ct arts"
  by (induction pre arbitrary: ca ct arts) (auto simp: Let_def split: option.splits)

lemma encabezado_sin_cuerpo:
  assumes "strip h \<noteq> []" "\<not> is_capitulo (strip h)"
    "re_match fl_m pat_articulo (strip h) = Some m" "group 2 m = []"
    "\<forall>b\<in>set blanks. strip b = []"
    "post = [] \<or> is_capitulo (strip (hd post)) \<or>
     re_match fl_m pat_articulo (strip (hd post)) \<noteq> None"
  shows "articulos_loop ([h] @ blanks @ post) ca ct arts = articulos_loop post ca ct arts"
proof -
  have a: "articulos_loop ([h] @ blanks @ post) ca ct arts =
        articulos_loop post (Some (numero_articulo (group 1 m))) [] (guardar_articulo ca ct arts)"
    using assms(1-5) by (simp add: Let_def texto_inicial_def articulos_loop_blancos)
  show ?thesis
  proof (cases post)
    case Nil
    then show ?thesis unfolding a by (simp add: guardar_articulo_vacio)
  next
    case (Cons p ps)
    with assms(6) have "strip p \<noteq> []"
      using is_capitulo_vacio match_articulo_vacio by auto
    then show ?thesis unfolding a using assms(6) Cons
      by (auto simp: Let_def guardar_articulo_vacio split: option.splits)
  qed
qed

text \<open>
  C10.  An article header line \<open>h\<close> whose text after the number token is empty, followed
  by blank lines only up to the next article header, a chapter header or the end of the
  range, produces no article: the result of \<open>parsear_articulos\<close> is the result of the
  loop on the range without \<open>h\<close> and those blank lines.  An article is stored only when
  its accumulated text is not empty.
\<close>

theorem C10_encabezado_sin_cuerpo:
  assumes "slice (split_nl contenido) inicio fin = pre @ [h] @ blanks @ post"
    and "strip h \<noteq> []" and "\<not> is_capitulo (strip h)"
    and "re_match fl_m pat_articulo (strip h) = Some m" and "group 2 m = []"
    and "\<forall>b\<in>set blanks. strip b = []"
    and "post = [] \<or> is_capitulo (strip (hd post)) \<or>
         re_match fl_m pat_articulo (strip (hd post)) \<noteq> None"
  shows "parsear_articulos contenido inicio fin = articulos_loop (pre @ post) None [] []
         \<and> guardar_articulo ca [] arts = arts"
  unfolding parsear_articulos_def assms(1)
  using articulos_loop_cong_prefix [of "[h] @ blanks @ post" post pre None "[]" "[]"]
    encabezado_sin_cuerpo [OF assms(2-7)]
  by (simp add: guardar_articulo_vacio)

theorem C10_encabezado_sin_cuerpo_witness:
  "parsear_articulos doc_sin_cuerpo 0 4 =
     [\<lparr>a_articulo = 1, a_texto = ustr ''x'', a_fracciones = []\<rparr>,
      \<lparr>a_articulo = 3, a_texto = ustr ''y'', a_fracciones = []\<rparr>]"
proof -
  have 1: "slice (split_nl doc_sin_cuerpo) 0 4 =
             [linea_art_1] @ [linea_art_2] @ [ustr ''  ''] @ [linea_art_3]"
    by (simp add: doc_sin_cuerpo_def linea_art_1_def linea_art_2_def linea_art_3_def
        pat_defs str_defs)
  have 2: "strip linea_art_2 \<noteq> []"
    by (simp add: linea_art_2_def pat_defs str_defs)
  have 3: "\<not> is_capitulo (strip linea_art_2)"
    by (simp add: linea_art_2_def parse_defs pat_defs str_defs rx_defs)
  have 4: "re_match fl_m pat_articulo (strip linea_art_2) =
             Some (linea_art_2, [], [(2, []), (1, ustr ''2'')])"
    by (simp add: linea_art_2_def parse_defs pat_defs str_defs rx_defs)
  have 5: "group 2 (linea_art_2, [], [(2, []), (1, ustr ''2'')]) = []"
    by simp
  have 6: "\<forall>b\<in>set [ustr ''  '']. strip b = []"
    by (simp add: str_defs)
  have 7: "[linea_art_3] = [] \<or> is_capitulo (strip (hd [linea_art_3])) \<or>
           re_match fl_m pat_articulo (strip (hd [linea_art_3])) \<noteq> None"
    by (simp add: linea_art_3_def parse_defs pat_defs str_defs rx_defs)
  have 8: "articulos_loop ([linea_art_1] @ [linea_art_3]) None [] [] =
     [\<lparr>a_articulo = 1, a_texto = ustr ''x'', a_fracciones = []\<rparr>,
      \<lparr>a_articulo = 3, a_texto = ustr ''y'', a_fracciones = []\<rparr>]"
    by (simp add: linea_art_1_def linea_art_3_def parse_defs pat_defs str_defs rx_defs)
  from C10_encabezado_sin_cuerpo [OF 1 2 3 4 5 6 7] 8 show ?thesis by simp
qed

section \<open>Documents without chapter headers\<close>

lemma capitulo_positions_Nil:
  "(\<forall>l\<in>set ls. \<not> is_capitulo (strip l)) \<Longrightarrow> capitulo_positions i ls = []"
  by (induction ls arbitrary: i) auto

lemma guardar_articulo_crece: "out \<noteq> [] \<Longrightarrow> guardar_articulo ca ct out \<noteq> []"
  by (cases ca) auto

lemma articulos_loop_crece: "out \<noteq> [] \<Longrightarrow> articulos_loop ls ca ct out \<noteq> []"
  by (induction ls arbitrary: ca ct out)
    (auto simp: Let_def guardar_articulo_crece split: option.splits)

lemma articulos_loop_con_texto: "ct \<noteq> [] \<Longrightarrow> articulos_loop ls (Some n) ct out \<noteq> []"
  by (induction ls arbitrary: ct)
    (auto simp: Let_def articulos_loop_crece split: option.splits)

lemma articulos_loop_no_vacio:
  assumes "\<forall>l\<in>set ls. \<not> is_capitulo (strip l)"
    and "\<exists>l\<in>set ls. \<exists>m. re_match fl_m pat_articulo (strip l) = Some m \<and> group 2 m \<noteq> []"
  shows "articulos_loop ls ca ct out \<noteq> []"
  using assms
proof (induction ls arbitrary: ca ct out)
  case Nil
  then show ?case by simp
next
  case (Cons l ls)
  show ?case
  proof (cases "\<exists>m. re_match fl_m pat_articulo (strip l) = Some m \<and> group 2 m \<noteq> []")
    case True
    then obtain m where m: "re_match fl_m pat_articulo (strip l) = Some m" "group 2 m \<noteq> []"
      by blast
    then have "strip l \<noteq> []" using match_articulo_vacio by auto
    then show ?thesis using m Cons.prems(1)
      by (simp add: Let_def texto_inicial_def articulos_loop_con_texto)
  next
    case False
    with Cons.prems(2)
    have ex: "\<exists>l\<in>set ls. \<exists>m. re_match fl_m pat_articulo (strip l) = Some m \<and> group 2 m \<noteq> []"
      by auto
    have nc: "\<forall>l\<in>set ls. \<not> is_capitulo (strip l)" using Cons.prems(1) by simp
    have nl: "\<not> is_capitulo (strip l)" using Cons.prems(1) by simp
    show ?thesis using Cons.IH [OF nc ex] nl
      by (simp add: Let_def split: option.splits)
  qed
qed

lemma strip_capitulo_unico: "strip capitulo_unico = capitulo_unico"
  by (simp add: capitulo_unico_def pat_defs str_defs)

text \<open>
  C3, as the claim states it, fails: the one-line document made of the bare header of
  article 2 has no chapter header and one line matching the article pattern, and
  \<open>parsear_capitulos\<close> returns no chapter at all, since the header has no text and a
  chapter without articles is not kept.
\<close>

theorem C3_counterexample:
  "split_nl linea_art_2 = [linea_art_2] \<and> \<not> is_capitulo (strip linea_art_2) \<and>
   re_match fl_m pat_articulo (strip linea_art_2) \<noteq> None \<and>
   parsear_capitulos linea_art_2 = []"
  by (simp add: linea_art_2_def parsear_capitulos_def parse_defs pat_defs str_defs rx_defs)

text \<open>
  C3, amended.  For every document in which no line matches the chapter-header pattern:
  when the article segmenter, run over the whole document, yields at least one article,
  the parser returns exactly one chapter, its label is the implicit one, and it contains
  all those articles; when it yields none, the parser returns no chapter.  The segmenter
  yields at least one article whenever some article header line has text behind its
  number token.
\<close>

theorem C3_capitulo_unico:
  assumes "\<forall>l\<in>set (split_nl contenido). \<not> is_capitulo (strip l)"
  shows "parsear_capitulos contenido =
           (if parsear_articulos contenido 0 (length (split_nl contenido)) \<noteq> []
            then [\<lparr>c_capitulo = capitulo_unico,
                   c_articulos = parsear_articulos contenido 0 (length (split_nl contenido))\<rparr>]
            else [])
         \<and> ((\<exists>l\<in>set (split_nl contenido). \<exists>m.
               re_match fl_m pat_articulo (strip l) = Some m \<and> group 2 m \<noteq> [])
            \<longrightarrow> parsear_articulos contenido 0 (length (split_nl contenido)) \<noteq> [])"
proof (rule conjI)
  show "parsear_capitulos contenido =
           (if parsear_articulos contenido 0 (length (split_nl contenido)) \<noteq> []
            then [\<lparr>c_capitulo = capitulo_unico,
                   c_articulos = parsear_articulos contenido 0 (length (split_nl contenido))\<rparr>]
            else [])"
    using capitulo_positions_Nil [OF assms, of 0]
    by (simp add: parsear_capitulos_def Let_def mk_Capitulo_def strip_capitulo_unico)
next
  show "(\<exists>l\<in>set (split_nl contenido). \<exists>m.
               re_match fl_m pat_articulo (strip l) = Some m \<and> group 2 m \<noteq> [])
            \<longrightarrow> parsear_articulos contenido 0 (length (split_nl contenido)) \<noteq> []"
    using articulos_loop_no_vacio [OF assms]
    by (simp add: parsear_articulos_def slice_def)
qed

theorem C3_capitulo_unico_witness:
  "parsear_capitulos doc_articulo_unico =
     [\<lparr>c_capitulo = capitulo_unico,
       c_articulos = [\<lparr>a_articulo = 1, a_texto = ustr ''Se deroga la presente ley.'',
                       a_fracciones = []\<rparr>]\<rparr>]"
proof -
  have s: "split_nl doc_articulo_unico = [doc_articulo_unico]"
    by (simp add: doc_articulo_unico_def pat_defs str_defs)
  have 1: "\<forall>l\<in>set (split_nl doc_articulo_unico). \<not> is_capitulo (strip l)"
    unfolding s by (simp add: doc_articulo_unico_def parse_defs pat_defs str_defs rx_defs)
  have m: "re_match fl_m pat_articulo (strip doc_articulo_unico) = Some m_unico"
    by (simp add: m_unico_def doc_articulo_unico_def parse_defs pat_defs str_defs rx_defs)
  have 2: "\<exists>l\<in>set (split_nl doc_articulo_unico). \<exists>m.
             re_match fl_m pat_articulo (strip l) = Some m \<and> group 2 m \<noteq> []"
    unfolding s using m by (simp add: m_unico_def ustr_def)
  have 3: "parsear_articulos doc_articulo_unico 0 (length (split_nl doc_articulo_unico)) =
     [\<lparr>a_articulo = 1, a_texto = ustr ''Se deroga la presente ley.'', a_fracciones = []\<rparr>]"
    by (simp add: doc_articulo_unico_def parse_defs pat_defs str_defs rx_defs)
  from C3_capitulo_unico [OF 1] 2 show ?thesis unfolding 3 by simp
qed

section \<open>The extent of a chapter\<close>

lemma capitulo_positions_eq:
  "capitulo_positions k ls =
     map (\<lambda>i. (k + i, strip (ls ! i))) (filter (\<lambda>i. is_capitulo (strip (ls ! i))) [0..<length ls])"
proof (induction ls arbitrary: k)
  case Nil
  then show ?case by simp
next
  case (Cons l ls)
  have u: "[0..<length (l # ls)] = 0 # map Suc [0..<length ls]"
    by (simp add: upt_conv_Cons map_Suc_upt del: upt_Suc)
  show ?case unfolding u
    by (simp add: Cons.IH filter_map comp_def del: upt_Suc)
qed

lemma capitulo_positions_0:
  "capitulo_positions 0 lines =
     map (\<lambda>i. (i, strip (lines ! i))) (encabezados_capitulo lines)"
  by (simp add: capitulo_positions_eq encabezados_capitulo_def)

lemma buscar_transitorios_eq:
  "buscar_transitorios pos (drop pos lines) = transitorios_desde lines pos"
proof (induction "length lines - pos" arbitrary: pos)
  case 0
  then show ?case by (simp add: transitorios_desde_def)
next
  case (Suc n)
  then have lt: "pos < length lines" by simp
  have d: "drop pos lines = lines ! pos # drop (Suc pos) lines"
    using lt by (simp add: Cons_nth_drop_Suc)
  have u: "[pos..<length lines] = pos # [Suc pos..<length lines]"
    using lt by (simp add: upt_conv_Cons)
  have ih: "buscar_transitorios (Suc pos) (drop (Suc pos) lines) = transitorios_desde lines (Suc pos)"
    using Suc by simp
  show ?case unfolding d
    using ih by (simp add: transitorios_desde_def u)
qed

lemma capitulos_loop_eq:
  "i \<le> length positions \<Longrightarrow>
   capitulos_loop contenido lines positions i (drop i positions) out =
     out @ concat (map (paso_capitulo contenido lines positions) [i..<length positions])"
proof (induction "length positions - i" arbitrary: i out)
  case 0
  then show ?case by simp
next
  case (Suc n)
  then have lt: "i < length positions" by simp
  obtain pos titulo where pt: "positions ! i = (pos, titulo)"
    by (cases "positions ! i")
  have d: "drop i positions = (pos, titulo) # drop (Suc i) positions"
    using lt pt by (simp add: Cons_nth_drop_Suc [symmetric])
  have u: "[i..<length positions] = i # [Suc i..<length positions]"
    using lt by (simp add: upt_conv_Cons)
  have ih: "\<And>out. capitulos_loop contenido lines positions (Suc i) (drop (Suc i) positions) out =
     out @ concat (map (paso_capitulo contenido lines positions) [Suc i..<length positions])"
    using Suc lt by simp
  show ?case unfolding d u
    by (simp add: ih paso_capitulo_def Let_def pt)
qed

lemma fin_capitulo_eq:
  assumes "positions = capitulo_positions 0 lines" "k < length positions"
  shows "fin_capitulo lines positions k (fst (positions ! k)) = fin_extension lines k"
proof -
  have p: "positions = map (\<lambda>i. (i, strip (lines ! i))) (encabezados_capitulo lines)"
    using assms(1) by (simp add: capitulo_positions_0)
  have len: "length positions = length (encabezados_capitulo lines)" using p by simp
  have k: "k < length (encabezados_capitulo lines)" using assms(2) len by simp
  have f: "fst (positions ! k) = encabezados_capitulo lines ! k" using p k by simp
  show ?thesis
  proof (cases "Suc k < length positions")
    case True
    then have "fst (positions ! Suc k) = encabezados_capitulo lines ! Suc k"
      using p len by simp
    then show ?thesis using True len
      by (simp add: fin_capitulo_def fin_extension_def Let_def)
  next
    case False
    then have e: "int k = int (length positions) - 1" using assms(2) by simp
    show ?thesis using False e len f
      by (simp add: fin_capitulo_def fin_extension_def Let_def buscar_transitorios_eq)
  qed
qed

text \<open>
  C5.  For every document with at least one chapter header, \<open>parsear_capitulos\<close> parses
  the \<open>i\<close>-th chapter over the lines behind its header up to \<open>fin_extension\<close>: the start
  line of the next chapter header and, for the last chapter only, the first transitory
  header from the chapter's start line on, or else the end of the document.  The
  transitory header never cuts a chapter that is not the last.
\<close>

theorem C5_extension_capitulos:
  assumes "encabezados_capitulo (split_nl contenido) \<noteq> []"
  shows "parsear_capitulos contenido =
     concat (map (\<lambda>i. capitulo_de contenido (encabezados_capitulo (split_nl contenido) ! i)
                         (fin_extension (split_nl contenido) i))
               [0..<length (encabezados_capitulo (split_nl contenido))])"
proof -
  let ?lines = "split_nl contenido"
  let ?ps = "capitulo_positions 0 ?lines"
  let ?hs = "encabezados_capitulo ?lines"
  have p: "?ps = map (\<lambda>i. (i, strip (?lines ! i))) ?hs"
    by (simp add: capitulo_positions_0)
  have ne: "?ps \<noteq> []" using assms p by simp
  have len: "length ?ps = length ?hs" using p by simp
  have loop: "parsear_capitulos contenido =
      concat (map (paso_capitulo contenido ?lines ?ps) [0..<length ?ps])"
    using ne capitulos_loop_eq [of 0 ?ps contenido ?lines "[]"]
    by (simp add: parsear_capitulos_def Let_def)
  have step: "paso_capitulo contenido ?lines ?ps k =
        capitulo_de contenido (?hs ! k) (fin_extension ?lines k)" if "k < length ?hs" for k
  proof -
    have kp: "k < length ?ps" using that len by simp
    have f: "fst (?ps ! k) = ?hs ! k" using that by (simp add: capitulo_positions_0)
    have s: "snd (?ps ! k) = strip (?lines ! (?hs ! k))" using that by (simp add: capitulo_positions_0)
    show ?thesis
      using fin_capitulo_eq [OF refl kp] f s
      by (simp add: paso_capitulo_def capitulo_de_def Let_def)
  qed
  show ?thesis unfolding loop len
    by (rule arg_cong [where f = concat]) (simp add: step)
qed

lemma split_dos_capitulos:
  "split_nl doc_dos_capitulos =
     [w_CAPITULO @ ustr '' I'', w_Articulo @ ustr '' 1. x'', ustr ''TRANSITORIOS'',
      w_CAPITULO @ ustr '' II'', w_Articulo @ ustr '' 2. z'', ustr ''TRANSITORIOS'',
      ustr ''Primero. y'']"
  by (simp add: doc_dos_capitulos_def pat_defs str_defs)

lemma encabezados_dos_capitulos: "encabezados_capitulo (split_nl doc_dos_capitulos) = [0, 3]"
  unfolding split_dos_capitulos
  by (simp add: encabezados_capitulo_def upt_rec [of _ "length _"] parse_defs pat_defs str_defs rx_defs)

theorem C5_extension_capitulos_witness:
  "parsear_capitulos doc_dos_capitulos =
     [\<lparr>c_capitulo = w_CAPITULO @ ustr '' I'',
       c_articulos = [\<lparr>a_articulo = 1, a_texto = ustr ''x TRANSITORIOS'', a_fracciones = []\<rparr>]\<rparr>,
      \<lparr>c_capitulo = w_CAPITULO @ ustr '' II'',
       c_articulos = [\<lparr>a_articulo = 2, a_texto = ustr ''z'', a_fracciones = []\<rparr>]\<rparr>]"
proof -
  have ne: "encabezados_capitulo (split_nl doc_dos_capitulos) \<noteq> []"
    by (simp add: encabezados_dos_capitulos)
  have f0: "fin_extension (split_nl doc_dos_capitulos) 0 = 3"
    by (simp add: fin_extension_def encabezados_dos_capitulos)
  have t: "transitorios_desde (split_nl doc_dos_capitulos) 3 = Some 5"
    unfolding transitorios_desde_def split_dos_capitulos
    by (simp add: upt_rec [of _ "length _"] parse_defs pat_defs str_defs rx_defs)
  have f1: "fin_extension (split_nl doc_dos_capitulos) (Suc 0) = 5"
    by (simp add: fin_extension_def encabezados_dos_capitulos t)
  have c0: "capitulo_de doc_dos_capitulos 0 3 =
     [\<lparr>c_capitulo = w_CAPITULO @ ustr '' I'',
       c_articulos = [\<lparr>a_articulo = 1, a_texto = ustr ''x TRANSITORIOS'', a_fracciones = []\<rparr>]\<rparr>]"
    unfolding capitulo_de_def parsear_articulos_def split_dos_capitulos
    by (simp add: parse_defs pat_defs str_defs rx_defs)
  have c1: "capitulo_de doc_dos_capitulos 3 5 =
     [\<lparr>c_capitulo = w_CAPITULO @ ustr '' II'',
       c_articulos = [\<lparr>a_articulo = 2, a_texto = ustr ''z'', a_fracciones = []\<rparr>]\<rparr>]"
    unfolding capitulo_de_def parsear_articulos_def split_dos_capitulos
    by (simp add: parse_defs pat_defs str_defs rx_defs)
  have u: "[0..<2] = [0, Suc 0]" by (simp add: upt_rec)
  show ?thesis
    using C5_extension_capitulos [OF ne]
    by (simp add: encabezados_dos_capitulos u f0 f1 c0 c1)
qed

section \<open>Results of the matcher\<close>

lemma avanza_refl: "avanza st st"
  by (simp add: avanza_def)

lemma avanza_trans: "avanza a b \<Longrightarrow> avanza b c \<Longrightarrow> avanza a c"
  by (auto simp: avanza_def)

lemma atom_run_avanza: "m \<in> set (atom_run P st) \<Longrightarrow> avanza st m"
  by (induction P st rule: atom_run.induct) (auto simp: avanza_def split: if_splits)

lemma star_run_avanza: "m \<in> set (star_run P st) \<Longrightarrow> avanza st m"
proof (induction P st rule: star_run.induct)
  case (1 P pre g)
  then show ?case by (simp add: avanza_def)
next
  case (2 P pre c cs g)
  then show ?case
    by (auto simp: avanza_def split: if_splits)
qed

lemma lazy_run_avanza: "m \<in> set (lazy_run P st) \<Longrightarrow> avanza st m"
proof (induction P st rule: lazy_run.induct)
  case (1 P pre g)
  then show ?case by (simp add: avanza_def)
next
  case (2 P pre c cs g)
  then show ?case
    by (auto simp: avanza_def split: if_splits)
qed

lemma lit_run_avanza: "m \<in> set (lit_run f s st) \<Longrightarrow> avanza st m"
proof (induction f s st rule: lit_run.induct)
  case (1 f st)
  then show ?case by (simp add: avanza_def)
next
  case (2 f p ps pre g)
  then show ?case by simp
next
  case (3 f p ps pre c cs g)
  then show ?case by (auto simp: avanza_def split: if_splits)
qed

lemma close_grp_avanza: "avanza st m \<Longrightarrow> avanza st (close_grp n p m)"
  by (cases m) (auto simp: avanza_def)

lemma rx_run_avanza:
  "(\<forall>m\<in>set (rx_run f r st). avanza st m)"
  "(\<forall>m\<in>set (rx_cat f rs st). avanza st m)"
  "(\<forall>m\<in>set (rx_alt f rs st). avanza st m)"
proof (induction f r st and f rs st and f rs st rule: rx_run_rx_cat_rx_alt.induct)
  case (1 f a st)
  then show ?case by (auto dest: atom_run_avanza)
next
  case (2 f s st)
  then show ?case by (auto dest: lit_run_avanza)
next
  case (3 f st)
  then show ?case by (auto simp: avanza_refl)
next
  case (4 f st)
  then show ?case by (auto simp: avanza_refl)
next
  case (5 f a st)
  then show ?case by (auto dest: star_run_avanza)
next
  case (6 f a st)
  then show ?case by (auto dest!: atom_run_avanza star_run_avanza intro: avanza_trans)
next
  case (7 f a st)
  then show ?case by (auto dest: atom_run_avanza simp: avanza_refl)
next
  case (8 f a st)
  then show ?case by (auto dest: lazy_run_avanza)
next
  case (9 f n r st)
  then show ?case by (auto intro: close_grp_avanza)
next
  case (10 f rs st)
  then show ?case by simp
next
  case (11 f rs st)
  then show ?case by simp
next
  case (12 f st)
  then show ?case by (simp add: avanza_refl)
next
  case (13 f r rs st)
  then show ?case by (auto intro: avanza_trans)
next
  case (14 f st)
  then show ?case by simp
next
  case (15 f r rs st)
  then show ?case by auto
qed

















































lemma extraer_titulo_ejemplos:
  "extraer_titulo isupper_latin1
     (ustr ''DECRETO'' @ [10] @ ustr ''Ley de  Ingresos del Municipio '' @ [8211] @ ustr '' 2024'') =
     ustr ''Municipio - 2024''"
  "extraer_titulo isupper_latin1 (ustr ''LEY FEDERAL DEL TRABAJO'') = ustr ''FEDERAL DEL TRABAJO''"
  "extraer_titulo isupper_latin1 (ustr ''PODER EJECUTIVO'' @ [10] @ ustr ''texto'') =
     ustr ''PODER EJECUTIVO''"
  "extraer_titulo isupper_latin1 (ustr ''texto'') = titulo_no_identificado"
  by (simp_all add: extraer_titulo_def isupper_latin1_def is_upper_cp_def is_lower_cp_def
      titulo_no_identificado_def parse_defs pat_defs str_defs rx_defs)

section \<open>Chapter headers\<close>

text \<open>
  C4.  The claim makes a line a chapter header when a keyword is followed by an ordinal
  word.  The pattern lists three ordinal words only: the line made of the chapter keyword
  and "QUINTO" is not classified as a chapter header (while the one with "TERCERO" is,
  and the pattern for transitory items does list "QUINTO"), so a document that starts
  with it is parsed as having the implicit chapter only.
\<close>

theorem C4_capitulo_quinto:
  "\<not> is_capitulo (w_CAPITULO @ ustr '' QUINTO'') \<and>
   is_capitulo (w_CAPITULO @ ustr '' TERCERO'') \<and>
   re_match fl_mi pat_transitorio_item (ustr ''QUINTO. x'') \<noteq> None \<and>
   parsear_capitulos (w_CAPITULO @ ustr '' QUINTO'' @ [10] @ linea_art_1) =
     [\<lparr>c_capitulo = capitulo_unico,
       c_articulos = [\<lparr>a_articulo = 1, a_texto = ustr ''x'', a_fracciones = []\<rparr>]\<rparr>]"
  by (simp add: linea_art_1_def parsear_capitulos_def capitulo_unico_def
      parse_defs pat_defs str_defs rx_defs)

text \<open>The ordinal words "CUARTO" and "DECIMO" (with its accent) are accepted only because
  their first letters are in the class of Roman letters, as is any other word that starts
  with one of them.\<close>

lemma is_capitulo_letra_romana:
  "is_capitulo (w_CAPITULO @ ustr '' CUARTO'')"
  "is_capitulo (w_CAPITULO @ ustr '' '' @ w_DECIMO)"
  "is_capitulo (w_TITULO @ ustr '' DE PROPIEDAD'')"
  by (simp_all add: parse_defs pat_defs str_defs rx_defs)

section \<open>Source order and overlap\<close>

lemma split_nl_sin_salto: "l \<in> set (split_nl s) \<Longrightarrow> sin_salto l"
proof (induction s arbitrary: l)
  case Nil
  then show ?case by (simp add: sin_salto_def)
next
  case (Cons c cs)
  show ?case
  proof (cases "c = 10")
    case True
    then show ?thesis using Cons by (auto simp: sin_salto_def)
  next
    case False
    then show ?thesis using Cons
      by (cases "split_nl cs") (auto simp: sin_salto_def)
  qed
qed

lemma split_nl_no_vacio: "split_nl s \<noteq> []"
  by (induction s) (auto split: list.splits)

lemma split_nl_linea: "sin_salto x \<Longrightarrow> split_nl x = [x]"
  by (induction x) (auto simp: sin_salto_def)

lemma split_nl_append: "sin_salto x \<Longrightarrow> split_nl (x @ 10 # r) = x # split_nl r"
  by (induction x) (auto simp: sin_salto_def)

lemma split_nl_join:
  "xs \<noteq> [] \<Longrightarrow> (\<forall>x\<in>set xs. sin_salto x) \<Longrightarrow> split_nl (join [10] xs) = xs"
proof (induction "[10::nat]" xs rule: join.induct)
  case 1
  then show ?case by simp
next
  case (2 x)
  then show ?case by (simp add: split_nl_linea)
next
  case (3 x y ys)
  then show ?case by (simp add: split_nl_append)
qed

lemma strip_subset: "set (strip l) \<subseteq> set l"
proof -
  have "set (strip l) \<subseteq> set (lstrip l)"
    unfolding strip_def rstrip_def using set_dropWhileD by fastforce
  moreover have "set (lstrip l) \<subseteq> set l"
    unfolding lstrip_def using set_dropWhileD by fastforce
  ultimately show ?thesis by blast
qed

lemma strip_sin_salto: "sin_salto l \<Longrightarrow> sin_salto (strip l)"
  using strip_subset by (auto simp: sin_salto_def)

lemma avanza_texto: "avanza st m \<Longrightarrow> texto m = texto st"
  by (auto simp: avanza_def texto_def)

lemma atom_run_grupos: "m \<in> set (atom_run P st) \<Longrightarrow> snd (snd m) = snd (snd st)"
  by (induction P st rule: atom_run.induct) (auto split: if_splits)

lemma star_run_grupos: "m \<in> set (star_run P st) \<Longrightarrow> snd (snd m) = snd (snd st)"
  by (induction P st rule: star_run.induct) (auto split: if_splits)

lemma lazy_run_grupos: "m \<in> set (lazy_run P st) \<Longrightarrow> snd (snd m) = snd (snd st)"
  by (induction P st rule: lazy_run.induct) (auto split: if_splits)

lemma lit_run_grupos: "m \<in> set (lit_run f s st) \<Longrightarrow> snd (snd m) = snd (snd st)"
  by (induction f s st rule: lit_run.induct) (auto split: if_splits)

lemma grupos_mismo:
  "avanza st m \<Longrightarrow> snd (snd m) = snd (snd st) \<Longrightarrow> grupos_en_texto st \<Longrightarrow> grupos_en_texto m"
  by (simp add: grupos_en_texto_def avanza_texto)

lemma close_grp_grupos:
  "grupos_en_texto m \<Longrightarrow> grupos_en_texto (close_grp n p m)"
proof -
  obtain pre rest g where m: "m = (pre, rest, g)" by (cases m)
  have "set (drop (length p) pre) \<subseteq> set (pre @ rest)"
    using set_drop_subset [of "length p" pre] by auto
  then show "grupos_en_texto m \<Longrightarrow> grupos_en_texto (close_grp n p m)"
    unfolding m by (auto simp: grupos_en_texto_def texto_def)
qed

lemma atom_run_en_texto: "m \<in> set (atom_run P st) \<Longrightarrow> grupos_en_texto st \<Longrightarrow> grupos_en_texto m"
  using atom_run_avanza atom_run_grupos grupos_mismo by blast

lemma star_run_en_texto: "m \<in> set (star_run P st) \<Longrightarrow> grupos_en_texto st \<Longrightarrow> grupos_en_texto m"
  using star_run_avanza star_run_grupos grupos_mismo by blast

lemma lazy_run_en_texto: "m \<in> set (lazy_run P st) \<Longrightarrow> grupos_en_texto st \<Longrightarrow> grupos_en_texto m"
  using lazy_run_avanza lazy_run_grupos grupos_mismo by blast

lemma lit_run_en_texto: "m \<in> set (lit_run f s st) \<Longrightarrow> grupos_en_texto st \<Longrightarrow> grupos_en_texto m"
  using lit_run_avanza lit_run_grupos grupos_mismo by blast

lemma rx_run_grupos:
  "grupos_en_texto st \<Longrightarrow> (\<forall>m\<in>set (rx_run f r st). grupos_en_texto m)"
  "grupos_en_texto st \<Longrightarrow> (\<forall>m\<in>set (rx_cat f rs st). grupos_en_texto m)"
  "grupos_en_texto st \<Longrightarrow> (\<forall>m\<in>set (rx_alt f rs st). grupos_en_texto m)"
proof (induction f r st and f rs st and f rs st rule: rx_run_rx_cat_rx_alt.induct)
  case (1 f a st)
  then show ?case by (auto intro: atom_run_en_texto)
next
  case (2 f s st)
  then show ?case by (auto intro: lit_run_en_texto)
next
  case (3 f st)
  then show ?case by simp
next
  case (4 f st)
  then show ?case by simp
next
  case (5 f a st)
  then show ?case by (auto intro: star_run_en_texto)
next
  case (6 f a st)
  then show ?case by (auto intro: star_run_en_texto atom_run_en_texto)
next
  case (7 f a st)
  then show ?case by (auto intro: atom_run_en_texto)
next
  case (8 f a st)
  then show ?case by (auto intro: lazy_run_en_texto)
next
  case (9 f n r st)
  then show ?case by (auto intro: close_grp_grupos)
next
  case (10 f rs st)
  then show ?case by simp
next
  case (11 f rs st)
  then show ?case by simp
next
  case (12 f st)
  then show ?case by simp
next
  case (13 f r rs st)
  then show ?case by auto
next
  case (14 f st)
  then show ?case by simp
next
  case (15 f r rs st)
  then show ?case by auto
qed

lemma group_subset:
  assumes "re_match f r s = Some m"
  shows "set (group n m) \<subseteq> set s"
proof -
  from assms have mem: "m \<in> set (rx_run f r ([], s, []))"
    by (auto simp: re_match_def split: list.splits)
  have "grupos_en_texto ([], s, [])" by (simp add: grupos_en_texto_def)
  with mem rx_run_grupos(1) have g: "grupos_en_texto m" by blast
  from mem rx_run_avanza(1) have "avanza ([], s, []) m" by blast
  from avanza_texto [OF this] have t: "texto m = s" by (simp add: texto_def)
  obtain pre rest gs where m: "m = (pre, rest, gs)" by (cases m)
  show ?thesis
  proof (cases "map_of gs n")
    case None
    then show ?thesis by (simp add: m)
  next
    case (Some t')
    then have "(n, t') \<in> set gs" by (rule map_of_SomeD)
    with g t Some show ?thesis by (auto simp: m grupos_en_texto_def)
  qed
qed

lemma texto_inicial_sin_salto:
  "re_match f r s = Some m \<Longrightarrow> sin_salto s \<Longrightarrow> \<forall>x\<in>set (texto_inicial m). sin_salto x"
  using group_subset [of f r s m 2] by (auto simp: texto_inicial_def sin_salto_def)

lemma guardar_fraccion_t_val:
  "map ft_val (guardar_fraccion_t cur ct out) =
     guardar_fraccion (map_option fst cur) (map snd ct) (map ft_val out)"
  by (cases cur) auto

lemma fracciones_loop_t_val:
  "map ft_val (fracciones_loop_t ils cur ct out) =
     fracciones_loop (map snd ils) (map_option fst cur) (map snd ct) (map ft_val out)"
proof (induction ils arbitrary: cur ct out)
  case Nil
  then show ?case by (simp add: guardar_fraccion_t_val)
next
  case (Cons il ils)
  obtain i l where il: "il = (i, l)" by (cases il)
  show ?case unfolding il
    by (simp add: Let_def Cons.IH guardar_fraccion_t_val comp_def split: option.splits)
qed

lemma a_fracciones_armar:
  "a_fracciones (armar_articulo ca xs) = parsear_fracciones (join [10] xs)"
  by (simp add: armar_articulo_def mk_Articulo_def Let_def)

lemma armar_articulo_t_fracciones:
  assumes "ct \<noteq> []" "\<forall>x\<in>set ct. sin_salto (snd x)"
  shows "map ft_val (at_fracciones (armar_articulo_t ca h ct)) =
         a_fracciones (at_val (armar_articulo_t ca h ct))"
proof -
  have "split_nl (join [10] (map snd ct)) = map snd ct"
    using assms by (intro split_nl_join) auto
  then show ?thesis
    by (simp add: armar_articulo_t_def a_fracciones_armar parsear_fracciones_def
        fracciones_loop_t_val)
qed

lemma guardar_articulo_t_val:
  "map at_val (guardar_articulo_t cur ct out) =
     guardar_articulo (map_option fst cur) (map snd ct) (map at_val out)"
  by (cases cur) (auto simp: armar_articulo_t_def)

lemma articulos_loop_t_val:
  "map at_val (articulos_loop_t ils cur ct out) =
     articulos_loop (map snd ils) (map_option fst cur) (map snd ct) (map at_val out)"
proof (induction ils arbitrary: cur ct out)
  case Nil
  then show ?case by (simp add: guardar_articulo_t_val)
next
  case (Cons il ils)
  obtain i l where il: "il = (i, l)" by (cases il)
  show ?case unfolding il
    by (cases cur)
      (simp_all add: Let_def Cons.IH guardar_articulo_t_val comp_def split: option.splits)
qed

lemma parsear_articulos_t_val:
  "map at_val (parsear_articulos_t contenido inicio fin) = parsear_articulos contenido inicio fin"
  by (simp add: parsear_articulos_t_def parsear_articulos_def articulos_loop_t_val slice_def
      drop_map [symmetric] take_map [symmetric])

lemma capitulos_loop_t_val:
  "map ct_val (capitulos_loop_t contenido lines positions i rest out) =
     capitulos_loop contenido lines positions i rest (map ct_val out)"
proof (induction rest arbitrary: i out)
  case Nil
  then show ?case by simp
next
  case (Cons p rest)
  obtain pos titulo where p: "p = (pos, titulo)" by (cases p)
  have e: "\<And>f. (parsear_articulos_t contenido (Suc pos) f = []) =
                (parsear_articulos contenido (Suc pos) f = [])"
    using parsear_articulos_t_val [of contenido "Suc pos"] by (metis map_is_Nil_conv)
  show ?case unfolding p
    by (simp add: Let_def Cons.IH parsear_articulos_t_val e)
qed

lemma parsear_capitulos_t_val:
  "map ct_val (parsear_capitulos_t contenido) = parsear_capitulos contenido"
proof -
  have e: "(parsear_articulos_t contenido 0 (length (split_nl contenido)) = []) =
           (parsear_articulos contenido 0 (length (split_nl contenido)) = [])"
    using parsear_articulos_t_val [of contenido 0] by (metis map_is_Nil_conv)
  show ?thesis
    by (simp add: parsear_capitulos_t_def parsear_capitulos_def Let_def capitulos_loop_t_val
        parsear_articulos_t_val e)
qed

lemma inv_f_mono: "inv_f k cur ct out \<Longrightarrow> k \<le> k' \<Longrightarrow> inv_f k' cur ct out"
  by (cases cur) (fastforce simp: inv_f_def)+

lemma guardar_fraccion_t_inv:
  assumes "inv_f k cur ct out"
  shows "sorted_wrt orden_f (guardar_fraccion_t cur ct out)"
    and "\<forall>f\<in>set (guardar_fraccion_t cur ct out). \<forall>i\<in>lineas_fraccion f. i < k"
proof -
  show "sorted_wrt orden_f (guardar_fraccion_t cur ct out)"
  proof (cases cur)
    case None
    then show ?thesis using assms by (simp add: inv_f_def)
  next
    case (Some p)
    obtain cf h where p: "p = (cf, h)" by (cases p)
    show ?thesis using assms unfolding Some p
      by (fastforce simp: inv_f_def sorted_wrt_append orden_f_def antes_def lineas_fraccion_def)
  qed
  show "\<forall>f\<in>set (guardar_fraccion_t cur ct out). \<forall>i\<in>lineas_fraccion f. i < k"
  proof (cases cur)
    case None
    then show ?thesis using assms by (simp add: inv_f_def)
  next
    case (Some p)
    obtain cf h where p: "p = (cf, h)" by (cases p)
    from assms have old: "\<forall>f\<in>set out. \<forall>i\<in>lineas_fraccion f. i < h" and hk: "h < k"
      and c: "\<forall>i\<in>fst ` set ct. i < k"
      unfolding Some p by (auto simp: inv_f_def)
    have old': "\<forall>f\<in>set out. \<forall>i\<in>lineas_fraccion f. i < k"
      using old hk by (meson less_trans)
    show ?thesis unfolding Some p using old' hk c
      by (auto simp: lineas_fraccion_def)
  qed
qed

lemma fracciones_loop_t_orden:
  assumes "inv_f k cur ct out" "sorted_wrt (<) (map fst ils)" "\<forall>x\<in>set ils. k \<le> fst x"
  shows "sorted_wrt orden_f (fracciones_loop_t ils cur ct out)"
  using assms
proof (induction ils arbitrary: k cur ct out)
  case Nil
  then show ?case using guardar_fraccion_t_inv(1) by simp
next
  case (Cons il ils)
  obtain i l where il: "il = (i, l)" by (cases il)
  have ki: "k \<le> i" using Cons.prems(3) il by simp
  have s: "sorted_wrt (<) (map fst ils)" using Cons.prems(2) by simp
  have b: "\<forall>x\<in>set ils. Suc i \<le> fst x"
    using Cons.prems(2) unfolding il by (auto simp: Suc_le_eq)
  have same: "inv_f (Suc i) cur ct out" using Cons.prems(1) ki inv_f_mono by force
  have ih: "\<And>cur ct out. inv_f (Suc i) cur ct out \<Longrightarrow>
              sorted_wrt orden_f (fracciones_loop_t ils cur ct out)"
    using Cons.IH s b by blast
  have nuevo: "inv_f (Suc i) (Some (g, i)) (map (Pair i) t) (guardar_fraccion_t cur ct out)" for g t
    using guardar_fraccion_t_inv [OF Cons.prems(1)] ki
    by (fastforce simp: inv_f_def)
  have sigue: "inv_f (Suc i) cur (ct @ [(i, strip l)]) out" if "truthy (map_option fst cur)"
  proof -
    from that obtain cf h where c: "cur = Some (cf, h)" by (cases cur) auto
    show ?thesis using Cons.prems(1) ki unfolding c by (fastforce simp: inv_f_def)
  qed
  show ?case unfolding il
    by (auto simp: Let_def same ih nuevo sigue split: option.splits)
qed

lemma guardar_fraccion_t_en:
  assumes "\<forall>f\<in>set out. lineas_fraccion f \<subseteq> A" "fst ` set ct \<subseteq> A"
    "\<forall>cf h. cur = Some (cf, h) \<longrightarrow> h \<in> A"
  shows "\<forall>f\<in>set (guardar_fraccion_t cur ct out). lineas_fraccion f \<subseteq> A"
proof (cases cur)
  case None
  then show ?thesis using assms by simp
next
  case (Some p)
  obtain cf h where p: "p = (cf, h)" by (cases p)
  show ?thesis using assms unfolding Some p
    by (auto simp: lineas_fraccion_def)
qed

lemma fracciones_loop_t_en:
  assumes "\<forall>f\<in>set out. lineas_fraccion f \<subseteq> A" "fst ` set ct \<subseteq> A"
    "\<forall>cf h. cur = Some (cf, h) \<longrightarrow> h \<in> A" "fst ` set ils \<subseteq> A"
  shows "\<forall>f\<in>set (fracciones_loop_t ils cur ct out). lineas_fraccion f \<subseteq> A"
  using assms
proof (induction ils arbitrary: cur ct out)
  case Nil
  then show ?case using guardar_fraccion_t_en by simp
next
  case (Cons il ils)
  obtain i l where il: "il = (i, l)" by (cases il)
  have iA: "i \<in> A" using Cons.prems(4) il by simp
  have r: "fst ` set ils \<subseteq> A" using Cons.prems(4) by simp
  have g: "\<forall>f\<in>set (guardar_fraccion_t cur ct out). lineas_fraccion f \<subseteq> A"
    using guardar_fraccion_t_en [OF Cons.prems(1-3)] .
  have 1: "\<forall>f\<in>set (fracciones_loop_t ils cur ct out). lineas_fraccion f \<subseteq> A"
    using Cons.IH [OF Cons.prems(1-3) r] .
  have 2: "\<forall>f\<in>set (fracciones_loop_t ils (Some (c, i)) (map (Pair i) t)
              (guardar_fraccion_t cur ct out)). lineas_fraccion f \<subseteq> A" for c t
    using iA by (intro Cons.IH [OF g _ _ r]) auto
  have 3: "\<forall>f\<in>set (fracciones_loop_t ils cur (ct @ [(i, strip l)]) out). lineas_fraccion f \<subseteq> A"
    using iA Cons.prems(2) by (intro Cons.IH [OF Cons.prems(1) _ Cons.prems(3) r]) auto
  show ?case unfolding il
    using 1 2 3 by (simp add: Let_def split: option.splits)
qed

lemma armar_articulo_t_bueno:
  assumes "ct \<noteq> []" "\<forall>x\<in>set ct. sin_salto (snd x)" "sorted_wrt (<) (map fst ct)"
  shows "bueno (armar_articulo_t ca h ct)"
proof -
  have 1: "map ft_val (at_fracciones (armar_articulo_t ca h ct)) =
           a_fracciones (at_val (armar_articulo_t ca h ct))"
    using assms(1,2) by (rule armar_articulo_t_fracciones)
  have i0: "inv_f 0 None [] []" by (simp add: inv_f_def)
  have 2: "sorted_wrt orden_f (fracciones_loop_t ct None [] [])"
    using fracciones_loop_t_orden [OF i0 assms(3)] by simp
  have 3: "\<forall>f\<in>set (fracciones_loop_t ct None [] []). lineas_fraccion f \<subseteq> fst ` set ct"
    by (rule fracciones_loop_t_en) simp_all
  show ?thesis using 1 2 3 by (simp add: bueno_def armar_articulo_t_def)
qed

lemma inv_a_mono: "inv_a k cur ct out \<Longrightarrow> k \<le> k' \<Longrightarrow> inv_a k' cur ct out"
  by (cases cur) (fastforce simp: inv_a_def)+

lemma lineas_armar: "lineas_articulo (armar_articulo_t ca h ct) = insert h (fst ` set ct)"
  by (simp add: lineas_articulo_def armar_articulo_t_def)

lemma guardar_articulo_t_inv:
  assumes "inv_a k cur ct out"
  shows "sorted_wrt orden_a (guardar_articulo_t cur ct out)"
    and "\<forall>a\<in>set (guardar_articulo_t cur ct out). bueno a"
    and "\<forall>a\<in>set (guardar_articulo_t cur ct out). \<forall>i\<in>lineas_articulo a. i < k"
proof -
  show "sorted_wrt orden_a (guardar_articulo_t cur ct out)"
  proof (cases cur)
    case None
    then show ?thesis using assms by (simp add: inv_a_def)
  next
    case (Some p)
    obtain ca h where p: "p = (ca, h)" by (cases p)
    show ?thesis using assms unfolding Some p
      by (fastforce simp: inv_a_def sorted_wrt_append orden_a_def antes_def lineas_armar)
  qed
  show "\<forall>a\<in>set (guardar_articulo_t cur ct out). bueno a"
  proof (cases cur)
    case None
    then show ?thesis using assms by (simp add: inv_a_def)
  next
    case (Some p)
    obtain ca h where p: "p = (ca, h)" by (cases p)
    show ?thesis using assms unfolding Some p
      by (auto simp: inv_a_def intro: armar_articulo_t_bueno)
  qed
  show "\<forall>a\<in>set (guardar_articulo_t cur ct out). \<forall>i\<in>lineas_articulo a. i < k"
  proof (cases cur)
    case None
    then show ?thesis using assms by (simp add: inv_a_def)
  next
    case (Some p)
    obtain ca h where p: "p = (ca, h)" by (cases p)
    from assms have old: "\<forall>a\<in>set out. \<forall>i\<in>lineas_articulo a. i < h" and hk: "h < k"
      and c: "\<forall>i\<in>fst ` set ct. i < k"
      unfolding Some p by (auto simp: inv_a_def)
    have old': "\<forall>a\<in>set out. \<forall>i\<in>lineas_articulo a. i < k"
      using old hk by (meson less_trans)
    show ?thesis unfolding Some p using old' hk c
      by (auto simp: lineas_armar)
  qed
qed

lemma texto_inicial_corto: "length (texto_inicial m) \<le> 1"
  by (simp add: texto_inicial_def)

lemma sorted_par: "length t \<le> 1 \<Longrightarrow> sorted_wrt (<) (map fst (map (Pair (i::nat)) t))"
  by (cases t) auto

lemma articulos_loop_t_inv:
  assumes "inv_a k cur ct out" "sorted_wrt (<) (map fst ils)"
    "\<forall>x\<in>set ils. k \<le> fst x \<and> sin_salto (snd x)"
  shows "sorted_wrt orden_a (articulos_loop_t ils cur ct out) \<and>
         (\<forall>a\<in>set (articulos_loop_t ils cur ct out). bueno a)"
  using assms
proof (induction ils arbitrary: k cur ct out)
  case Nil
  then show ?case using guardar_articulo_t_inv(1,2) by simp
next
  case (Cons il ils)
  obtain i l where il: "il = (i, l)" by (cases il)
  have ki: "k \<le> i" using Cons.prems(3) il by simp
  have sl: "sin_salto (strip l)" using Cons.prems(3) il by (simp add: strip_sin_salto)
  have s: "sorted_wrt (<) (map fst ils)" using Cons.prems(2) by simp
  have b: "\<forall>x\<in>set ils. Suc i \<le> fst x \<and> sin_salto (snd x)"
    using Cons.prems(2,3) unfolding il by (auto simp: Suc_le_eq)
  have same: "inv_a (Suc i) cur ct out" using Cons.prems(1) ki inv_a_mono by force
  have ih: "\<And>cur ct out. inv_a (Suc i) cur ct out \<Longrightarrow>
              sorted_wrt orden_a (articulos_loop_t ils cur ct out) \<and>
              (\<forall>a\<in>set (articulos_loop_t ils cur ct out). bueno a)"
    using Cons.IH s b by blast
  have corte: "sorted_wrt orden_a (guardar_articulo_t cur ct out) \<and>
               (\<forall>a\<in>set (guardar_articulo_t cur ct out). bueno a)"
    using guardar_articulo_t_inv(1,2) [OF Cons.prems(1)] by simp
  have nuevo: "inv_a (Suc i) (Some (n, i)) (map (Pair i) (texto_inicial m))
                 (guardar_articulo_t cur ct out)"
    if "re_match fl_m pat_articulo (strip l) = Some m" for n m
  proof -
    have 1: "\<forall>x\<in>set (map (Pair i) (texto_inicial m)). sin_salto (snd x)"
      using texto_inicial_sin_salto [OF that sl] by simp
    have 2: "sorted_wrt (<) (map fst (map (Pair i) (texto_inicial m)))"
      by (rule sorted_par) (rule texto_inicial_corto)
    have 3: "\<forall>a\<in>set (guardar_articulo_t cur ct out). \<forall>j\<in>lineas_articulo a. j < i"
      using guardar_articulo_t_inv(3) [OF Cons.prems(1)] ki by (meson less_le_trans)
    show ?thesis
      using guardar_articulo_t_inv(1,2) [OF Cons.prems(1)] 1 2 3
      unfolding inv_a_def by auto
  qed
  have sigue: "inv_a (Suc i) cur (ct @ [(i, strip l)]) out" if "cur \<noteq> None"
  proof -
    from that obtain ca h where c: "cur = Some (ca, h)" by (cases cur) auto
    show ?thesis using Cons.prems(1) ki sl unfolding c
      by (fastforce simp: inv_a_def sorted_wrt_append)
  qed
  show ?case
  proof (cases "strip l = []")
    case True
    then have "articulos_loop_t (il # ils) cur ct out = articulos_loop_t ils cur ct out"
      unfolding il by simp
    then show ?thesis using ih [OF same] by simp
  next
    case ne: False
    show ?thesis
    proof (cases "is_capitulo (strip l)")
      case True
      then have "articulos_loop_t (il # ils) cur ct out = guardar_articulo_t cur ct out"
        unfolding il using ne by simp
      then show ?thesis using corte by simp
    next
      case nc: False
      show ?thesis
      proof (cases "re_match fl_m pat_articulo (strip l)")
        case (Some m)
        then have "articulos_loop_t (il # ils) cur ct out =
                   articulos_loop_t ils (Some (numero_articulo (group 1 m), i))
                     (map (Pair i) (texto_inicial m)) (guardar_articulo_t cur ct out)"
          unfolding il using ne nc by simp
        then show ?thesis using ih [OF nuevo [OF Some]] by simp
      next
        case None
        show ?thesis
        proof (cases cur)
          case cn: None
          then have "articulos_loop_t (il # ils) cur ct out = articulos_loop_t ils cur ct out"
            unfolding il using ne nc None by simp
          then show ?thesis using ih [OF same] by simp
        next
          case (Some p)
          then have "articulos_loop_t (il # ils) cur ct out =
                     articulos_loop_t ils cur (ct @ [(i, strip l)]) out"
            unfolding il using ne nc None by simp
          moreover have "cur \<noteq> None" using Some by simp
          ultimately show ?thesis using ih [OF sigue] by simp
        qed
      qed
    qed
  qed
qed

lemma guardar_articulo_t_en:
  assumes "\<forall>a\<in>set out. lineas_articulo a \<subseteq> A \<and> Q (at_encabezado a)" "fst ` set ct \<subseteq> A"
    "\<forall>ca h. cur = Some (ca, h) \<longrightarrow> h \<in> A \<and> Q h"
  shows "\<forall>a\<in>set (guardar_articulo_t cur ct out). lineas_articulo a \<subseteq> A \<and> Q (at_encabezado a)"
proof (cases cur)
  case None
  then show ?thesis using assms by simp
next
  case (Some p)
  obtain ca h where p: "p = (ca, h)" by (cases p)
  have enc: "at_encabezado (armar_articulo_t ca h ct) = h"
    by (simp add: armar_articulo_t_def)
  show ?thesis using assms unfolding Some p
    by (auto simp: lineas_armar enc)
qed

lemma articulos_loop_t_en:
  assumes "\<forall>a\<in>set out. lineas_articulo a \<subseteq> A \<and> Q (at_encabezado a)" "fst ` set ct \<subseteq> A"
    "\<forall>ca h. cur = Some (ca, h) \<longrightarrow> h \<in> A \<and> Q h" "fst ` set ils \<subseteq> A"
    "\<forall>x\<in>set ils. re_match fl_m pat_articulo (strip (snd x)) \<noteq> None \<longrightarrow> Q (fst x)"
  shows "\<forall>a\<in>set (articulos_loop_t ils cur ct out).
           lineas_articulo a \<subseteq> A \<and> Q (at_encabezado a)"
  using assms
proof (induction ils arbitrary: cur ct out)
  case Nil
  then show ?case using guardar_articulo_t_en [of out A Q ct cur] by simp
next
  case (Cons il ils)
  obtain i l where il: "il = (i, l)" by (cases il)
  have iA: "i \<in> A" using Cons.prems(4) il by simp
  have r: "fst ` set ils \<subseteq> A" using Cons.prems(4) by simp
  have q: "\<forall>x\<in>set ils. re_match fl_m pat_articulo (strip (snd x)) \<noteq> None \<longrightarrow> Q (fst x)"
    using Cons.prems(5) by simp
  have g: "\<forall>a\<in>set (guardar_articulo_t cur ct out). lineas_articulo a \<subseteq> A \<and> Q (at_encabezado a)"
    using guardar_articulo_t_en [OF Cons.prems(1-3)] .
  have 1: "\<forall>a\<in>set (articulos_loop_t ils cur ct out). lineas_articulo a \<subseteq> A \<and> Q (at_encabezado a)"
    using Cons.IH [OF Cons.prems(1-3) r q] .
  have 2: "\<forall>a\<in>set (articulos_loop_t ils (Some (n, i)) (map (Pair i) t)
              (guardar_articulo_t cur ct out)). lineas_articulo a \<subseteq> A \<and> Q (at_encabezado a)"
    if "re_match fl_m pat_articulo (strip l) \<noteq> None" for n t
  proof -
    have "Q i" using Cons.prems(5) that il by simp
    then show ?thesis using iA by (intro Cons.IH [OF g _ _ r q]) auto
  qed
  have 3: "\<forall>a\<in>set (articulos_loop_t ils cur (ct @ [(i, strip l)]) out).
             lineas_articulo a \<subseteq> A \<and> Q (at_encabezado a)"
    using iA Cons.prems(2) by (intro Cons.IH [OF Cons.prems(1) _ Cons.prems(3) r q]) auto
  show ?case unfolding il
    using 1 2 3 g by (auto simp: Let_def split: option.splits simp del: group.simps)
qed

lemma slice_enumerate_set:
  "x \<in> set (slice (enumerate 0 xs) inicio fin) \<Longrightarrow>
   inicio \<le> fst x \<and> fst x < fin \<and> fst x < length xs \<and> snd x = xs ! fst x"
proof -
  assume a: "x \<in> set (slice (enumerate 0 xs) inicio fin)"
  then obtain j where j: "j < length (slice (enumerate 0 xs) inicio fin)"
    "x = slice (enumerate 0 xs) inicio fin ! j"
    by (auto simp: in_set_conv_nth)
  then have b: "inicio + j < fin" "inicio + j < length xs"
    by (auto simp: slice_def)
  then have "x = enumerate 0 xs ! (inicio + j)"
    using j by (simp add: slice_def)
  then have "x = (inicio + j, xs ! (inicio + j))" using b by (simp add: nth_enumerate_eq)
  then show ?thesis using b by simp
qed

lemma slice_enumerate_sorted: "sorted_wrt (<) (map fst (slice (enumerate 0 xs) inicio fin))"
proof -
  have "map fst (slice (enumerate 0 xs) inicio fin) = drop inicio (take fin [0..<length xs])"
    by (simp add: slice_def drop_map [symmetric] take_map [symmetric])
  moreover have "sorted_wrt (<) (drop inicio (take fin [0..<length xs]))"
    by (intro sorted_wrt_drop sorted_wrt_take) simp
  ultimately show ?thesis by simp
qed

lemma inv_a_inicial: "inv_a k None [] []"
  by (simp add: inv_a_def)

lemma parsear_articulos_t_props:
  "sorted_wrt orden_a (parsear_articulos_t contenido inicio fin)"
  "\<forall>a\<in>set (parsear_articulos_t contenido inicio fin). bueno a"
  "\<forall>a\<in>set (parsear_articulos_t contenido inicio fin).
     lineas_articulo a \<subseteq> {inicio..<fin} \<and>
     (at_encabezado a < length (split_nl contenido) \<and>
      re_match fl_m pat_articulo (strip (split_nl contenido ! at_encabezado a)) \<noteq> None)"
proof -
  let ?ils = "slice (enumerate 0 (split_nl contenido)) inicio fin"
  have s: "sorted_wrt (<) (map fst ?ils)" by (rule slice_enumerate_sorted)
  have e: "\<forall>x\<in>set ?ils. inicio \<le> fst x \<and> fst x < fin \<and> fst x < length (split_nl contenido) \<and>
             snd x = split_nl contenido ! fst x"
    using slice_enumerate_set by blast
  have n: "\<forall>x\<in>set ?ils. inicio \<le> fst x \<and> sin_salto (snd x)"
  proof
    fix x assume x: "x \<in> set ?ils"
    with e have "snd x \<in> set (split_nl contenido)" by (metis nth_mem)
    then show "inicio \<le> fst x \<and> sin_salto (snd x)" using e x split_nl_sin_salto by blast
  qed
  from articulos_loop_t_inv [OF inv_a_inicial s n]
  show "sorted_wrt orden_a (parsear_articulos_t contenido inicio fin)"
    and "\<forall>a\<in>set (parsear_articulos_t contenido inicio fin). bueno a"
    by (simp_all add: parsear_articulos_t_def)
  have a: "fst ` set ?ils \<subseteq> {inicio..<fin}" using e by auto
  have q: "\<forall>x\<in>set ?ils. re_match fl_m pat_articulo (strip (snd x)) \<noteq> None \<longrightarrow>
             (fst x < length (split_nl contenido) \<and>
              re_match fl_m pat_articulo (strip (split_nl contenido ! fst x)) \<noteq> None)"
    using e by auto
  show "\<forall>a\<in>set (parsear_articulos_t contenido inicio fin).
     lineas_articulo a \<subseteq> {inicio..<fin} \<and>
     (at_encabezado a < length (split_nl contenido) \<and>
      re_match fl_m pat_articulo (strip (split_nl contenido ! at_encabezado a)) \<noteq> None)"
    unfolding parsear_articulos_t_def
    by (rule articulos_loop_t_en [OF _ _ _ a q]) simp_all
qed

lemma rstrip_prefijo: "\<exists>b. t = rstrip t @ b"
proof -
  have "rev t = takeWhile is_space (rev t) @ dropWhile is_space (rev t)" by simp
  then have "t = rev (dropWhile is_space (rev t)) @ rev (takeWhile is_space (rev t))"
    by (metis rev_append rev_rev_ident)
  then show ?thesis unfolding rstrip_def by blast
qed

lemma strip_idem: "strip (strip s) = strip s"
proof -
  let ?t = "lstrip s"
  let ?a = "rstrip ?t"
  have a: "strip s = ?a" by (simp add: strip_def)
  have l: "lstrip ?a = ?a"
  proof (cases "?a = []")
    case True
    then show ?thesis by (simp add: lstrip_def)
  next
    case False
    obtain b where b: "?t = ?a @ b" using rstrip_prefijo by blast
    then have "hd ?a = hd ?t" using False by (metis hd_append2)
    moreover have "?t \<noteq> []" using b False by auto
    then have "\<not> is_space (hd ?t)" unfolding lstrip_def by (rule hd_dropWhile)
    ultimately show ?thesis using False unfolding lstrip_def [of ?a]
      by (simp add: dropWhile_eq_self_iff)
  qed
  have r: "rstrip ?a = ?a" by (simp add: rstrip_def)
  show ?thesis unfolding a strip_def [of ?a] l r ..
qed

lemma encabezados_sorted: "sorted_wrt (<) (encabezados_capitulo lines)"
  unfolding encabezados_capitulo_def by (intro sorted_wrt_filter) simp

lemma encabezados_mem:
  "p \<in> set (encabezados_capitulo lines) \<Longrightarrow> p < length lines \<and> is_capitulo (strip (lines ! p))"
  by (simp add: encabezados_capitulo_def)

lemma positions_props:
  assumes "positions = capitulo_positions 0 lines"
  shows "sorted_wrt (<) (map fst positions)"
    and "\<forall>x\<in>set positions. fst x < length lines \<and> is_capitulo (strip (lines ! fst x)) \<and>
           snd x = strip (lines ! fst x)"
proof -
  have p: "positions = map (\<lambda>i. (i, strip (lines ! i))) (encabezados_capitulo lines)"
    using assms by (simp add: capitulo_positions_0)
  have "map fst positions = encabezados_capitulo lines" unfolding p by (simp add: comp_def)
  then show "sorted_wrt (<) (map fst positions)" using encabezados_sorted by simp
  show "\<forall>x\<in>set positions. fst x < length lines \<and> is_capitulo (strip (lines ! fst x)) \<and>
           snd x = strip (lines ! fst x)"
    unfolding p using encabezados_mem by auto
qed

lemma lineas_capitulo_nuevo:
  "lineas_capitulo (CapituloT v (Some pos) arts) = insert pos (\<Union>a\<in>set arts. lineas_articulo a)"
  by (simp add: lineas_capitulo_def)

lemma capitulo_nuevo_bueno:
  assumes "lines = split_nl contenido" "pos < length lines" "is_capitulo (strip (lines ! pos))"
    "titulo = strip (lines ! pos)" "arts = parsear_articulos_t contenido (pos + 1) fin"
  shows "bueno_c lines (CapituloT (mk_Capitulo titulo (map at_val arts)) (Some pos) arts)"
    and "\<forall>j\<in>lineas_capitulo (CapituloT (mk_Capitulo titulo (map at_val arts)) (Some pos) arts).
           pos \<le> j \<and> (j < fin \<or> j = pos)"
proof -
  note pr = parsear_articulos_t_props [of contenido "pos + 1" fin, folded assms(5) assms(1)]
  have r: "\<forall>a\<in>set arts. \<forall>i\<in>lineas_articulo a. pos < i \<and> i < fin"
    using pr(3) by fastforce
  show "bueno_c lines (CapituloT (mk_Capitulo titulo (map at_val arts)) (Some pos) arts)"
    using pr r assms(2,3,4) by (simp add: bueno_c_def mk_Capitulo_def strip_idem)
  show "\<forall>j\<in>lineas_capitulo (CapituloT (mk_Capitulo titulo (map at_val arts)) (Some pos) arts).
           pos \<le> j \<and> (j < fin \<or> j = pos)"
    using r by (fastforce simp: lineas_capitulo_nuevo)
qed

lemma fin_capitulo_siguiente:
  "Suc i < length positions \<Longrightarrow>
   fin_capitulo lines positions i pos = fst (positions ! Suc i)"
  by (simp add: fin_capitulo_def Let_def)

lemma capitulos_loop_t_inv:
  assumes "positions = capitulo_positions 0 lines" and "lines = split_nl contenido"
    and "rest = drop i positions"
    and "sorted_wrt orden_c out"
    and "\<forall>c\<in>set out. bueno_c lines c \<and> ct_encabezado c \<noteq> None"
    and "\<forall>c\<in>set out. \<forall>j\<in>lineas_capitulo c. \<forall>p\<in>fst ` set rest. j < p"
  shows "sorted_wrt orden_c (capitulos_loop_t contenido lines positions i rest out) \<and>
         (\<forall>c\<in>set (capitulos_loop_t contenido lines positions i rest out).
            bueno_c lines c \<and> ct_encabezado c \<noteq> None)"
  using assms(3-6)
proof (induction rest arbitrary: i out)
  case Nil
  then show ?case by simp
next
  case (Cons pr rest')
  obtain pos titulo where pr: "pr = (pos, titulo)" by (cases pr)
  note pp = positions_props [OF assms(1)]
  have d: "drop i positions = (pos, titulo) # rest'" using Cons.prems(1) pr by simp
  have i: "i < length positions" using d by (cases "i < length positions") auto
  have nth: "positions ! i = (pos, titulo)" using d by (metis nth_via_drop)
  have r': "rest' = drop (Suc i) positions" using d by (metis drop_Suc list.sel(3) tl_drop)
  have mem: "(pos, titulo) \<in> set positions" using nth i by (metis nth_mem)
  have pl: "pos < length lines" and pc: "is_capitulo (strip (lines ! pos))"
    and pt: "titulo = strip (lines ! pos)"
    using pp(2) mem by auto
  have sd: "sorted_wrt (<) (map fst (drop i positions))"
    using pp(1) by (simp add: drop_map [symmetric] sorted_wrt_drop)
  then have lt: "\<forall>p\<in>fst ` set rest'. pos < p" unfolding d by auto
  have sr: "sorted_wrt (<) (map fst rest')" using sd unfolding d by simp
  let ?fin = "fin_capitulo lines positions i pos"
  let ?arts = "parsear_articulos_t contenido (pos + 1) ?fin"
  let ?C = "CapituloT (mk_Capitulo titulo (map at_val ?arts)) (Some pos) ?arts"
  have fin: "\<forall>p\<in>fst ` set rest'. ?fin \<le> p"
  proof (cases rest')
    case Nil
    then show ?thesis by simp
  next
    case (Cons q qs)
    then have "Suc i < length positions" using r' by (cases "Suc i < length positions") auto
    moreover have "positions ! Suc i = q" using r' Cons by (metis nth_via_drop)
    ultimately have "?fin = fst q" by (simp add: fin_capitulo_siguiente)
    then show ?thesis using sr unfolding Cons by auto
  qed
  note cb = capitulo_nuevo_bueno [OF assms(2) pl pc pt refl, of ?fin]
  have Clines: "\<forall>j\<in>lineas_capitulo ?C. \<forall>p\<in>fst ` set rest'. j < p"
    using cb(2) lt fin by (metis leD leI less_le_trans)
  have oldC: "\<forall>c\<in>set out. orden_c c ?C"
  proof
    fix c assume c: "c \<in> set out"
    have "\<forall>j\<in>lineas_capitulo c. j < pos" using Cons.prems(4) c unfolding pr by simp
    then show "orden_c c ?C" using cb(2) unfolding orden_c_def antes_def
      by (meson less_le_trans)
  qed
  let ?out' = "if ?arts \<noteq> [] then out @ [?C] else out"
  have 1: "sorted_wrt orden_c ?out'"
    using Cons.prems(2) oldC by (simp add: sorted_wrt_append)
  have 2: "\<forall>c\<in>set ?out'. bueno_c lines c \<and> ct_encabezado c \<noteq> None"
    using Cons.prems(3) cb(1) by simp
  have 3: "\<forall>c\<in>set ?out'. \<forall>j\<in>lineas_capitulo c. \<forall>p\<in>fst ` set rest'. j < p"
    using Cons.prems(4) Clines by simp
  have eq: "capitulos_loop_t contenido lines positions i (pr # rest') out =
            capitulos_loop_t contenido lines positions (Suc i) rest' ?out'"
    unfolding pr by (simp add: Let_def)
  show ?case unfolding eq using Cons.IH [OF r' 1 2 3] .
qed

lemma antes_disjuntos: "antes A B \<Longrightarrow> A \<inter> B = {}"
  by (auto simp: antes_def)

lemma parsear_capitulos_t_props:
  "sorted_wrt orden_c (parsear_capitulos_t contenido)"
  "\<forall>c\<in>set (parsear_capitulos_t contenido). bueno_c (split_nl contenido) c"
  "sorted_wrt (\<lambda>c d. \<exists>i j. ct_encabezado c = Some i \<and> ct_encabezado d = Some j \<and> i < j)
     (parsear_capitulos_t contenido)"
proof -
  let ?lines = "split_nl contenido"
  let ?ps = "capitulo_positions 0 ?lines"
  let ?T = "parsear_capitulos_t contenido"
  have all: "sorted_wrt orden_c ?T \<and> (\<forall>c\<in>set ?T. bueno_c ?lines c) \<and>
             (length ?T \<le> 1 \<or> (\<forall>c\<in>set ?T. ct_encabezado c \<noteq> None))"
  proof (cases "?ps = []")
    case True
    let ?arts = "parsear_articulos_t contenido 0 (length ?lines)"
    note pr = parsear_articulos_t_props [of contenido 0 "length ?lines"]
    have "bueno_c ?lines (CapituloT (mk_Capitulo capitulo_unico (map at_val ?arts)) None ?arts)"
      using pr by (simp add: bueno_c_def mk_Capitulo_def)
    then show ?thesis using True by (simp add: parsear_capitulos_t_def Let_def)
  next
    case False
    have "?T = capitulos_loop_t contenido ?lines ?ps 0 ?ps []"
      using False by (simp add: parsear_capitulos_t_def Let_def)
    moreover have "sorted_wrt orden_c (capitulos_loop_t contenido ?lines ?ps 0 ?ps []) \<and>
         (\<forall>c\<in>set (capitulos_loop_t contenido ?lines ?ps 0 ?ps []).
            bueno_c ?lines c \<and> ct_encabezado c \<noteq> None)"
      by (rule capitulos_loop_t_inv [OF refl refl]) simp_all
    ultimately show ?thesis by simp
  qed
  then show "sorted_wrt orden_c ?T" and "\<forall>c\<in>set ?T. bueno_c ?lines c" by simp_all
  from all have "length ?T \<le> 1 \<or> (\<forall>c\<in>set ?T. ct_encabezado c \<noteq> None)" by simp
  then show "sorted_wrt (\<lambda>c d. \<exists>i j. ct_encabezado c = Some i \<and> ct_encabezado d = Some j \<and> i < j) ?T"
  proof
    assume "length ?T \<le> 1"
    then show ?thesis by (cases ?T) (auto simp: le_Suc_eq)
  next
    assume h: "\<forall>c\<in>set ?T. ct_encabezado c \<noteq> None"
    have "sorted_wrt orden_c ?T" using all by simp
    then show ?thesis
    proof (rule sorted_wrt_mono_rel [rotated])
      fix c d assume "c \<in> set ?T" "d \<in> set ?T" "orden_c c d"
      with h obtain i j where "ct_encabezado c = Some i" "ct_encabezado d = Some j" by blast
      moreover from this \<open>orden_c c d\<close> have "i < j"
        by (simp add: orden_c_def antes_def lineas_capitulo_def)
      ultimately show "\<exists>i j. ct_encabezado c = Some i \<and> ct_encabezado d = Some j \<and> i < j"
        by simp
    qed
  qed
qed

lemma orden_a_encabezados:
  assumes "sorted_wrt orden_a arts"
  shows "sorted_wrt (<) (map at_encabezado arts)"
proof -
  have "sorted_wrt (\<lambda>x y. at_encabezado x < at_encabezado y) arts"
    using assms
  proof (rule sorted_wrt_mono_rel [rotated])
    fix x y assume "orden_a x y"
    then show "at_encabezado x < at_encabezado y"
      by (simp add: orden_a_def antes_def lineas_articulo_def)
  qed
  then show ?thesis by (simp add: sorted_wrt_map)
qed

lemma orden_f_encabezados:
  assumes "sorted_wrt orden_f fs"
  shows "sorted_wrt (<) (map ft_encabezado fs)"
proof -
  have "sorted_wrt (\<lambda>x y. ft_encabezado x < ft_encabezado y) fs"
    using assms
  proof (rule sorted_wrt_mono_rel [rotated])
    fix x y assume "orden_f x y"
    then show "ft_encabezado x < ft_encabezado y"
      by (simp add: orden_f_def antes_def lineas_fraccion_def)
  qed
  then show ?thesis by (simp add: sorted_wrt_map)
qed

text \<open>
  Within the chapter tree the units are in source order and do not overlap.  For every
  document, the chapter pass run with source lines returns the chapters that
  \<open>parsear_capitulos\<close> returns; of two chapters in the output, every line of the earlier
  one (its header line and the lines of its articles) comes before every line of the
  later one, and the header lines increase strictly; likewise the articles within each
  chapter and the sub-items within each article.  Hence no line belongs to two units of
  one level of that tree (\<open>antes_disjuntos\<close>).  The transitory pass is not covered: see
  the next section.
\<close>

lemma orden_en_arbol_de_capitulos:
  "map ct_val (parsear_capitulos_t contenido) = parsear_capitulos contenido \<and>
   sorted_wrt orden_c (parsear_capitulos_t contenido) \<and>
   sorted_wrt (\<lambda>c d. \<exists>i j. ct_encabezado c = Some i \<and> ct_encabezado d = Some j \<and> i < j)
     (parsear_capitulos_t contenido) \<and>
   (\<forall>c\<in>set (parsear_capitulos_t contenido).
      map at_val (ct_articulos c) = c_articulos (ct_val c) \<and>
      (\<forall>p. ct_encabezado c = Some p \<longrightarrow>
         p < length (split_nl contenido) \<and> is_capitulo (strip (split_nl contenido ! p)) \<and>
         c_capitulo (ct_val c) = strip (split_nl contenido ! p)) \<and>
      sorted_wrt orden_a (ct_articulos c) \<and>
      sorted_wrt (<) (map at_encabezado (ct_articulos c)) \<and>
      (\<forall>a\<in>set (ct_articulos c).
         map ft_val (at_fracciones a) = a_fracciones (at_val a) \<and>
         at_encabezado a < length (split_nl contenido) \<and>
         re_match fl_m pat_articulo (strip (split_nl contenido ! at_encabezado a)) \<noteq> None \<and>
         sorted_wrt orden_f (at_fracciones a) \<and>
         sorted_wrt (<) (map ft_encabezado (at_fracciones a)) \<and>
         (\<forall>f\<in>set (at_fracciones a). lineas_fraccion f \<subseteq> lineas_articulo a)))"
proof (intro conjI ballI)
  show "map ct_val (parsear_capitulos_t contenido) = parsear_capitulos contenido"
    by (rule parsear_capitulos_t_val)
  show "sorted_wrt orden_c (parsear_capitulos_t contenido)"
    by (rule parsear_capitulos_t_props(1))
  show "sorted_wrt (\<lambda>c d. \<exists>i j. ct_encabezado c = Some i \<and> ct_encabezado d = Some j \<and> i < j)
     (parsear_capitulos_t contenido)"
    by (rule parsear_capitulos_t_props(3))
next
  fix c assume "c \<in> set (parsear_capitulos_t contenido)"
  then have b: "bueno_c (split_nl contenido) c" using parsear_capitulos_t_props(2) by blast
  show "map at_val (ct_articulos c) = c_articulos (ct_val c)" using b by (simp add: bueno_c_def)
  show "\<forall>p. ct_encabezado c = Some p \<longrightarrow>
         p < length (split_nl contenido) \<and> is_capitulo (strip (split_nl contenido ! p)) \<and>
         c_capitulo (ct_val c) = strip (split_nl contenido ! p)"
    using b by (simp add: bueno_c_def)
  show "sorted_wrt orden_a (ct_articulos c)" using b by (simp add: bueno_c_def)
  then show "sorted_wrt (<) (map at_encabezado (ct_articulos c))" by (rule orden_a_encabezados)
  fix a assume "a \<in> set (ct_articulos c)"
  then have a: "bueno a" "at_encabezado a < length (split_nl contenido)"
    "re_match fl_m pat_articulo (strip (split_nl contenido ! at_encabezado a)) \<noteq> None"
    using b by (simp_all add: bueno_c_def)
  show "map ft_val (at_fracciones a) = a_fracciones (at_val a)" using a(1) by (simp add: bueno_def)
  show "at_encabezado a < length (split_nl contenido)" by (rule a(2))
  show "re_match fl_m pat_articulo (strip (split_nl contenido ! at_encabezado a)) \<noteq> None"
    by (rule a(3))
  show "sorted_wrt orden_f (at_fracciones a)" using a(1) by (simp add: bueno_def)
  then show "sorted_wrt (<) (map ft_encabezado (at_fracciones a))" by (rule orden_f_encabezados)
  fix f assume "f \<in> set (at_fracciones a)"
  then show "lineas_fraccion f \<subseteq> lineas_articulo a"
    using a(1) by (auto simp: bueno_def lineas_articulo_def)
qed

lemma traza_doc_traza: "parsear_capitulos_t doc_traza = [capitulo_I_t, capitulo_II_t]"
  by (simp add: doc_traza_def capitulo_I_t_def capitulo_II_t_def articulo_5_t_def
      parsear_capitulos_t_def parsear_articulos_t_def armar_articulo_t_def fin_capitulo_def
      parse_defs pat_defs str_defs rx_defs)

lemma orden_en_arbol_de_capitulos_ejemplo:
  "parsear_capitulos_t doc_traza = [capitulo_I_t, capitulo_II_t] \<and>
   map ct_val [capitulo_I_t, capitulo_II_t] = parsear_capitulos doc_traza \<and>
   orden_c capitulo_I_t capitulo_II_t \<and>
   lineas_capitulo capitulo_I_t = {0, 1, 2, 3} \<and> lineas_capitulo capitulo_II_t = {4, 5} \<and>
   sorted_wrt orden_f (at_fracciones articulo_5_t) \<and>
   map ft_encabezado (at_fracciones articulo_5_t) = [2, 3]"
proof -
  note t = traza_doc_traza
  note c2 = orden_en_arbol_de_capitulos [of doc_traza, unfolded t]
  have 1: "map ct_val [capitulo_I_t, capitulo_II_t] = parsear_capitulos doc_traza"
    using c2 by blast
  have 2: "orden_c capitulo_I_t capitulo_II_t" using c2 by simp
  have c: "capitulo_I_t \<in> set [capitulo_I_t, capitulo_II_t]" by simp
  have a: "articulo_5_t \<in> set (ct_articulos capitulo_I_t)" by (simp add: capitulo_I_t_def)
  have 3: "sorted_wrt orden_f (at_fracciones articulo_5_t)" using c2 c a by blast
  have 4: "lineas_capitulo capitulo_I_t = {0, 1, 2, 3}"
    by (auto simp: lineas_capitulo_def lineas_articulo_def capitulo_I_t_def articulo_5_t_def)
  have 5: "lineas_capitulo capitulo_II_t = {4, 5}"
    by (auto simp: lineas_capitulo_def lineas_articulo_def capitulo_II_t_def)
  have 6: "map ft_encabezado (at_fracciones articulo_5_t) = [2, 3]"
    by (simp add: articulo_5_t_def)
  show ?thesis using t 1 2 3 4 5 6 by simp
qed

section \<open>Lines in an article and in a transitory article\<close>

lemma guardar_transitorio_t_val:
  "map tt_val (guardar_transitorio_t cur ct out) =
     guardar_transitorio (map_option fst cur) (map snd ct) (map tt_val out)"
  by (cases cur) auto

lemma transitorios_loop_t_val:
  "map tt_val (transitorios_loop_t ils cur ct out) =
     transitorios_loop (map snd ils) (map_option fst cur) (map snd ct) (map tt_val out)"
proof (induction ils arbitrary: cur ct out)
  case Nil
  then show ?case by (simp add: guardar_transitorio_t_val)
next
  case (Cons il ils)
  obtain i l where il: "il = (i, l)" by (cases il)
  show ?case unfolding il
    by (simp add: Let_def Cons.IH guardar_transitorio_t_val comp_def split: option.splits)
qed

lemma parsear_transitorios_t_val:
  "map tt_val (parsear_transitorios_t contenido) = parsear_transitorios contenido"
  by (simp add: parsear_transitorios_t_def parsear_transitorios_def Let_def
      transitorios_loop_t_val drop_map [symmetric] split: option.splits)

text \<open>
  C2.  The claim has every input line in at most one unit of each level.  On the
  three-line document \<open>doc_articulo_y_transitorio\<close> the chapter pass, which gets the whole
  document when there is no chapter header, stores article 1 with the text of lines 0,
  1 and 2, and the transitory pass, which starts behind the first transitory header,
  stores the transitory article "Primero" from line 2: line 2 is in both articles.
\<close>

theorem C2_linea_en_dos_articulos:
  "parsear_capitulos doc_articulo_y_transitorio =
     [\<lparr>c_capitulo = capitulo_unico, c_articulos = [at_val articulo_1_t]\<rparr>] \<and>
   parsear_capitulos_t doc_articulo_y_transitorio =
     [CapituloT \<lparr>c_capitulo = capitulo_unico, c_articulos = [at_val articulo_1_t]\<rparr> None
        [articulo_1_t]] \<and>
   parsear_transitorios doc_articulo_y_transitorio = [tt_val transitorio_primero_t] \<and>
   parsear_transitorios_t doc_articulo_y_transitorio = [transitorio_primero_t] \<and>
   lineas_articulo articulo_1_t \<inter> lineas_transitorio transitorio_primero_t = {2}"
proof -
  have s: "split_nl doc_articulo_y_transitorio =
             [linea_art_1, ustr ''TRANSITORIOS'', ustr ''Primero. y'']"
    by (simp add: doc_articulo_y_transitorio_def linea_art_1_def pat_defs str_defs)
  have 1: "parsear_capitulos_t doc_articulo_y_transitorio =
     [CapituloT \<lparr>c_capitulo = capitulo_unico, c_articulos = [at_val articulo_1_t]\<rparr> None
        [articulo_1_t]]"
    unfolding parsear_capitulos_t_def parsear_articulos_t_def s
    by (simp add: linea_art_1_def articulo_1_t_def armar_articulo_t_def capitulo_unico_def
        parse_defs pat_defs str_defs rx_defs)
  have 2: "parsear_transitorios_t doc_articulo_y_transitorio = [transitorio_primero_t]"
    unfolding parsear_transitorios_t_def s
    by (simp add: linea_art_1_def transitorio_primero_t_def parse_defs pat_defs str_defs rx_defs)
  have 3: "parsear_capitulos doc_articulo_y_transitorio =
     [\<lparr>c_capitulo = capitulo_unico, c_articulos = [at_val articulo_1_t]\<rparr>]"
    using parsear_capitulos_t_val [of doc_articulo_y_transitorio] unfolding 1 by simp
  have 4: "parsear_transitorios doc_articulo_y_transitorio = [tt_val transitorio_primero_t]"
    using parsear_transitorios_t_val [of doc_articulo_y_transitorio] unfolding 2 by simp
  have 5: "lineas_articulo articulo_1_t \<inter> lineas_transitorio transitorio_primero_t = {2}"
    by (auto simp: lineas_articulo_def lineas_transitorio_def articulo_1_t_def
        transitorio_primero_t_def)
  show ?thesis using 1 2 3 4 5 by simp
qed

end
